theory Spec2Isabelle
  imports Complex_Main
begin

section \<open>Exceptions\<close>

text \<open>
  The exceptions the embeddings module raises itself or receives from the
  Python runtime and the tensor library. A call that raises is modelled as a
  result \<open>Inl e\<close>; a call that returns \<open>v\<close> is \<open>Inr v\<close>.
  \<open>NotActivated\<close> is the plain \<open>Exception('Must activate PluggableEmbeddings
  before forward')\<close> of \<open>PluggableEmbeddings._active_embeddings\<close>.
\<close>

datatype py_error =
    ValueError
  | TypeError
  | RuntimeError
  | ZeroDivisionError
  | OverflowError
  | IndexError
  | KeyError
  | AssertionError
  | SequenceTooLongError
  | NotActivated

section \<open>PluggableEmbeddings\<close>

text \<open>
  \<open>PluggableEmbeddings\<close> is an \<open>nn.ModuleDict\<close>: its state is the dictionary of
  registered sub-modules (\<open>_modules\<close>, keyed by name) and the attribute
  \<open>active_key\<close>, which is \<open>None\<close> after construction. Keys are strings (language
  codes), so the f-string \<open>f'embeddings_{key}'\<close> is a concatenation. The wrapped
  embeddings are an arbitrary type \<open>'e\<close>; their \<open>forward\<close> is passed to the
  registry's \<open>forward\<close> as \<open>fwd\<close>.
\<close>

record 'e PluggableEmbeddings =
  modules :: "string \<rightharpoonup> 'e"
  active_key :: "string option"

definition embeddings_key :: "string \<Rightarrow> string" where
  "embeddings_key key = ''embeddings_'' @ key"

text \<open>
  \<open>nn.Module.add_module\<close> refuses a name that contains a dot or is empty with a
  \<open>KeyError\<close>; otherwise it stores the module under the name, replacing an
  earlier one of that name.
\<close>

definition add_module :: "(string \<rightharpoonup> 'e) \<Rightarrow> string \<Rightarrow> 'e \<Rightarrow> py_error + (string \<rightharpoonup> 'e)" where
  "add_module ms name m =
     (if CHR ''.'' \<in> set name then Inl KeyError
      else if name = [] then Inl KeyError
      else Inr (ms(name \<mapsto> m)))"

text \<open>The loop of \<open>__init__\<close> over \<open>embedding_dict.items()\<close>, in the dictionary's order.\<close>

fun add_modules :: "(string \<rightharpoonup> 'e) \<Rightarrow> (string \<times> 'e) list \<Rightarrow> py_error + (string \<rightharpoonup> 'e)" where
  "add_modules ms [] = Inr ms"
| "add_modules ms ((key, embeddings) # rest) =
     (case add_module ms (embeddings_key key) embeddings of
        Inl e \<Rightarrow> Inl e
      | Inr ms' \<Rightarrow> add_modules ms' rest)"

definition PluggableEmbeddings_init :: "(string \<times> 'e) list \<Rightarrow> py_error + 'e PluggableEmbeddings" where
  "PluggableEmbeddings_init embedding_dict =
     (case add_modules Map.empty embedding_dict of
        Inl e \<Rightarrow> Inl e
      | Inr ms \<Rightarrow> Inr \<lparr>modules = ms, active_key = None\<rparr>)"

text \<open>
  \<open>activate\<close> mutates the registry, so it returns the registry after the call
  together with the exception raised, if any. The assertion comes before the
  assignment: when it fails nothing has been written.
\<close>

definition activate :: "'e PluggableEmbeddings \<Rightarrow> string \<Rightarrow> py_error option \<times> 'e PluggableEmbeddings" where
  "activate self key =
     (if embeddings_key key \<in> dom (modules self)
      then (None, self\<lparr>active_key := Some key\<rparr>)
      else (Some AssertionError, self))"

definition active_embeddings :: "'e PluggableEmbeddings \<Rightarrow> py_error + 'e" where
  "active_embeddings self =
     (case active_key self of
        None \<Rightarrow> Inl NotActivated
      | Some k \<Rightarrow>
          (case modules self (embeddings_key k) of
             None \<Rightarrow> Inl KeyError
           | Some active \<Rightarrow> Inr active))"

definition forward :: "('e \<Rightarrow> 'src \<Rightarrow> 'step \<Rightarrow> py_error + 'out) \<Rightarrow> 'e PluggableEmbeddings \<Rightarrow> 'src \<Rightarrow> 'step \<Rightarrow> py_error + 'out" where
  "forward fwd self source step =
     (case active_embeddings self of
        Inl e \<Rightarrow> Inl e
      | Inr active \<Rightarrow> fwd active source step)"

section \<open>Tensors\<close>

text \<open>
  Tensors are nested lists of reals, outermost axis first: an embedding
  sequence of shape \<open>(seq_len, batch, dim)\<close> is a \<open>real list list list\<close>.
  Arithmetic is that of the reals; the rounding of 32-bit floats is left out.
\<close>

type_synonym tensor2 = "real list list"
type_synonym tensor3 = "real list list list"

text \<open>Python's slice \<open>xs[a:b]\<close>: negative bounds count from the end, and both are clamped.\<close>

definition py_slice :: "'a list \<Rightarrow> int \<Rightarrow> int \<Rightarrow> 'a list" where
  "py_slice xs a b =
     (let n = int (length xs);
          lo = (if a < 0 then max (a + n) 0 else min a n);
          hi = (if b < 0 then max (b + n) 0 else min b n)
      in take (nat (hi - lo)) (drop (nat lo) xs))"

text \<open>The first exception of a list of results, or all their values.\<close>

fun collect :: "(py_error + 'a) list \<Rightarrow> py_error + 'a list" where
  "collect [] = Inr []"
| "collect (Inl e # rs) = Inl e"
| "collect (Inr v # rs) = (case collect rs of Inl e \<Rightarrow> Inl e | Inr vs \<Rightarrow> Inr (v # vs))"

text \<open>
  Elementwise addition with the tensor library's broadcasting: two axes go
  together when they have the same size or one of them has size 1, and a
  \<open>RuntimeError\<close> is raised otherwise. \<open>add_row\<close> adds one positional row to
  every batch entry of a position: the table has a batch axis of size 1
  (\<open>pe.unsqueeze(1)\<close>).
\<close>

definition add_vec :: "real list \<Rightarrow> real list \<Rightarrow> py_error + real list" where
  "add_vec v w =
     (if length v = length w then Inr (map2 (+) v w)
      else if length v = 1 then Inr (map (\<lambda>y. hd v + y) w)
      else if length w = 1 then Inr (map (\<lambda>x. x + hd w) v)
      else Inl RuntimeError)"

definition add_row :: "real list list \<Rightarrow> real list \<Rightarrow> py_error + real list list" where
  "add_row row w = collect (map (\<lambda>v. add_vec v w) row)"

definition tensor_add :: "tensor3 \<Rightarrow> tensor2 \<Rightarrow> py_error + tensor3" where
  "tensor_add emb rows =
     (if length emb = length rows then collect (map2 add_row emb rows)
      else if length emb = 1 then collect (map (add_row (hd emb)) rows)
      else if length rows = 1 then collect (map (\<lambda>r. add_row r (hd rows)) emb)
      else Inl RuntimeError)"

text \<open>
  \<open>nn.Dropout(p)\<close>: the identity in evaluation mode; in training mode every
  entry is zeroed with probability \<open>p\<close> and the others are scaled by
  \<open>1 / (1 - p)\<close>. The random draw is the argument \<open>keep\<close> (entry \<open>(i, b, j)\<close>
  survives when \<open>keep i b j\<close>); with \<open>p = 0\<close> every entry survives and with
  \<open>p = 1\<close> none does.
\<close>

definition nn_dropout :: "real \<Rightarrow> bool \<Rightarrow> (nat \<Rightarrow> nat \<Rightarrow> nat \<Rightarrow> bool) \<Rightarrow> tensor3 \<Rightarrow> tensor3" where
  "nn_dropout p training keep x =
     (if \<not> training \<or> p = 0 then x
      else map (\<lambda>(i, row).
             map (\<lambda>(b, v).
               map (\<lambda>(j, a). if p < 1 \<and> keep i b j then a / (1 - p) else 0) (enumerate 0 v))
               (enumerate 0 row))
             (enumerate 0 x))"

section \<open>PositionalEncoding\<close>

text \<open>
  The module keeps the precomputed table \<open>pe\<close> (\<open>max_len\<close> rows of width
  \<open>dim\<close>), the dropout probability of its \<open>nn.Dropout\<close> and \<open>dim\<close>. The
  source's \<open>dim\<close> is written \<open>dim'\<close> below, \<open>dim\<close> being a constant of the library.
\<close>

record PositionalEncoding =
  pe :: tensor2
  pe_dropout :: real
  pe_dim :: int

text \<open>
  \<open>div_term[i] = exp(2i * -(log(10000) / dim))\<close>; column \<open>2i\<close> of row \<open>pos\<close> is
  \<open>sin(pos * div_term[i])\<close> and column \<open>2i + 1\<close> is \<open>cos(pos * div_term[i])\<close>.
\<close>

definition div_term :: "int \<Rightarrow> nat \<Rightarrow> real" where
  "div_term dim' i = exp (real (2 * i) * - (ln 10000 / real_of_int dim'))"

definition pe_entry :: "int \<Rightarrow> nat \<Rightarrow> nat \<Rightarrow> real" where
  "pe_entry dim' pos j =
     (if even j then sin (real pos * div_term dim' (j div 2))
      else cos (real pos * div_term dim' (j div 2)))"

definition pe_table :: "int \<Rightarrow> int \<Rightarrow> tensor2" where
  "pe_table dim' max_len = map (\<lambda>pos. map (pe_entry dim' pos) [0..<nat dim']) [0..<nat max_len]"

text \<open>
  \<open>__init__\<close>: an odd \<open>dim\<close> is a \<open>ValueError\<close>; \<open>torch.zeros(max_len, dim)\<close>
  raises on a negative size; \<open>math.log(10000.0) / dim\<close> raises on \<open>dim = 0\<close>;
  \<open>nn.Dropout\<close> refuses a probability outside \<open>[0, 1]\<close>.
\<close>

definition PositionalEncoding_init :: "real \<Rightarrow> int \<Rightarrow> int \<Rightarrow> py_error + PositionalEncoding" where
  "PositionalEncoding_init dropout dim' max_len =
     (if dim' mod 2 \<noteq> 0 then Inl ValueError
      else if max_len < 0 \<or> dim' < 0 then Inl RuntimeError
      else if dim' = 0 then Inl ZeroDivisionError
      else if dropout < 0 \<or> 1 < dropout then Inl ValueError
      else Inr \<lparr>pe = pe_table dim' max_len, pe_dropout = dropout, pe_dim = dim'\<rparr>)"

text \<open>
  \<open>forward(emb, step)\<close>. \<open>step or 0\<close> is \<open>0\<close> for \<open>None\<close> (and for \<open>0\<close>). The
  module's training flag and the dropout draw of this call are \<open>training\<close> and
  \<open>keep\<close>.
\<close>

definition step_or_0 :: "int option \<Rightarrow> int" where
  "step_or_0 step = (case step of None \<Rightarrow> 0 | Some s \<Rightarrow> s)"

definition PositionalEncoding_forward ::
  "PositionalEncoding \<Rightarrow> bool \<Rightarrow> (nat \<Rightarrow> nat \<Rightarrow> nat \<Rightarrow> bool) \<Rightarrow> tensor3 \<Rightarrow> int option \<Rightarrow> py_error + tensor3" where
  "PositionalEncoding_forward self training keep emb step =
     (let emb1 = map (map (map (\<lambda>x. x * sqrt (real_of_int (pe_dim self))))) emb;
          step1 = step_or_0 step
      in if int (length (pe self)) < step1 + int (length emb1) then Inl SequenceTooLongError
         else (case tensor_add emb1 (py_slice (pe self) step1 (int (length emb1) + step1)) of
                 Inl e \<Rightarrow> Inl e
               | Inr emb2 \<Rightarrow> Inr (nn_dropout (pe_dropout self) training keep emb2)))"

section \<open>Embedding tables\<close>

text \<open>
  One \<open>nn.Embedding\<close>: its sizes, the padding index after normalisation, the
  weight matrix (\<open>num_embeddings\<close> rows of width \<open>embedding_dim\<close>) and whether
  the weight takes part in gradient updates.
\<close>

record Embedding =
  num_embeddings :: int
  embedding_dim :: int
  padding_idx :: int
  weight :: tensor2
  requires_grad :: bool

text \<open>
  The constructor \<open>nn.Embedding(vocab, dim, padding_idx=pad)\<close> of the tensor
  library: it asserts that the padding index lies in \<open>[-vocab, vocab)\<close> and
  counts a negative one from the end, allocates the weight (a negative size
  raises), fills it with random draws (the argument \<open>init\<close>, by row and
  column) and zeroes the padding row.
\<close>

definition nn_Embedding :: "(nat \<Rightarrow> nat \<Rightarrow> real) \<Rightarrow> int \<Rightarrow> int \<Rightarrow> int \<Rightarrow> py_error + Embedding" where
  "nn_Embedding init vocab dim' pad =
     (if 0 < pad \<and> \<not> pad < vocab then Inl AssertionError
      else if pad < 0 \<and> \<not> - vocab \<le> pad then Inl AssertionError
      else let pad' = (if pad < 0 then vocab + pad else pad) in
        if vocab < 0 \<or> dim' < 0 then Inl RuntimeError
        else if \<not> pad' < vocab then Inl IndexError
        else Inr \<lparr>num_embeddings = vocab, embedding_dim = dim', padding_idx = pad',
                  weight = map (\<lambda>i. map (\<lambda>j. if i = nat pad' then 0 else init i j) [0..<nat dim'])
                             [0..<nat vocab],
                  requires_grad = True\<rparr>)"

text \<open>
  The pieces of \<open>create_embeddingless\<close>: \<open>F.one_hot(torch.arange(vocab)).float()\<close>
  is the identity matrix of size \<open>vocab\<close> and raises on an empty index tensor;
  \<open>torch.zeros\<close> raises on a negative size; \<open>torch.cat(..., dim=1)\<close> joins
  the rows; the assignment \<open>one_hot_embed[padding_idx] = ...\<close> replaces one
  row, a negative index counting from the end and an index out of range
  raising \<open>IndexError\<close>.
\<close>

definition one_hot_arange :: "int \<Rightarrow> py_error + tensor2" where
  "one_hot_arange vocab =
     (if vocab \<le> 0 then Inl RuntimeError
      else Inr (map (\<lambda>i. map (\<lambda>j. if j = i then 1 else 0) [0..<nat vocab]) [0..<nat vocab]))"

definition torch_zeros :: "int \<Rightarrow> int \<Rightarrow> py_error + tensor2" where
  "torch_zeros r c =
     (if r < 0 \<or> c < 0 then Inl RuntimeError
      else Inr (replicate (nat r) (replicate (nat c) 0)))"

definition cat_dim1 :: "tensor2 \<Rightarrow> tensor2 \<Rightarrow> tensor2" where
  "cat_dim1 a b = map2 (@) a b"

definition set_row :: "tensor2 \<Rightarrow> int \<Rightarrow> real list \<Rightarrow> py_error + tensor2" where
  "set_row t i row =
     (let n = int (length t); j = (if i < 0 then i + n else i)
      in if 0 \<le> j \<and> j < n then Inr (t[nat j := row]) else Inl IndexError)"

definition create_embeddingless :: "(nat \<Rightarrow> nat \<Rightarrow> real) \<Rightarrow> int \<Rightarrow> int \<Rightarrow> int \<Rightarrow> py_error + Embedding" where
  "create_embeddingless init vocab dim' pad =
     (case one_hot_arange vocab of
        Inl e \<Rightarrow> Inl e
      | Inr one_hot_matrix \<Rightarrow>
          (case torch_zeros vocab (dim' - vocab) of
             Inl e \<Rightarrow> Inl e
           | Inr z \<Rightarrow>
               (case set_row (cat_dim1 one_hot_matrix z) pad (replicate (nat dim') 0) of
                  Inl e \<Rightarrow> Inl e
                | Inr one_hot_embed \<Rightarrow>
                    (case nn_Embedding init vocab dim' pad of
                       Inl e \<Rightarrow> Inl e
                     | Inr emb \<Rightarrow> Inr (emb\<lparr>weight := one_hot_embed, requires_grad := False\<rparr>)))))"

section \<open>Embeddings\<close>

text \<open>The arguments of \<open>Embeddings.__init__\<close>, under the source's names.\<close>

record Embeddings_args =
  word_vec_size :: int
  word_vocab_size :: int
  word_padding_idx :: int
  position_encoding :: bool
  feat_merge :: string
  feat_vec_exponent :: real
  feat_vec_size :: int
  feat_padding_idx :: "int list option"
  feat_vocab_sizes :: "int list"
  dropout :: real
  freeze_word_vecs :: bool
  enable_embeddingless :: bool

text \<open>
  The constructed module. \<open>self_emb_luts\<close> are the tables of the
  \<open>Elementwise\<close> stage (the word table first), \<open>self_merge\<close> its merge
  strategy, \<open>self_mlp\<close> the input and output width of the \<open>nn.Linear\<close> of the
  \<open>mlp\<close> stage when there is one, and \<open>self_pe\<close> the positional encoding stage
  when there is one.
\<close>

record Embeddings =
  self_word_padding_idx :: int
  self_word_vec_size :: int
  self_embedding_size :: int
  self_emb_luts :: "Embedding list"
  self_merge :: string
  self_mlp :: "(int \<times> int) option"
  self_position_encoding :: bool
  self_pe :: "PositionalEncoding option"

text \<open>
  The float literal \<open>0.7\<close>, the default of \<open>feat_vec_exponent\<close>: the double
  nearest to 7/10, which is a little below it. Floats are modelled by the
  real numbers they stand for.
\<close>

definition float_0_7 :: real where
  "float_0_7 = 3152519739159347 / 4503599627370496"

text \<open>The default values of the optional arguments of \<open>__init__\<close>.\<close>

definition default_args :: "int \<Rightarrow> int \<Rightarrow> int \<Rightarrow> Embeddings_args" where
  "default_args vec_size vocab_size pad =
     \<lparr>word_vec_size = vec_size, word_vocab_size = vocab_size, word_padding_idx = pad,
      position_encoding = False, feat_merge = ''concat'', feat_vec_exponent = float_0_7,
      feat_vec_size = - 1, feat_padding_idx = Some [], feat_vocab_sizes = [],
      dropout = 0, freeze_word_vecs = False, enable_embeddingless = False\<rparr>"

datatype warning = Unused_feat_vec_exponent | Unused_feat_vec_size

text \<open>
  \<open>_validate_args\<close>: the warnings it emits, or the exception it raises.
  \<open>len(feat_padding_idx)\<close> raises \<open>TypeError\<close> on \<open>None\<close>.
\<close>

definition validate_args ::
  "string \<Rightarrow> int list \<Rightarrow> real \<Rightarrow> int \<Rightarrow> int list option \<Rightarrow> py_error + warning list" where
  "validate_args merge vocab_sizes exponent vec_size pads =
     (case (if merge = ''sum''
            then Inr ((if exponent \<noteq> float_0_7 then [Unused_feat_vec_exponent] else []) @
                      (if vec_size \<noteq> - 1 then [Unused_feat_vec_size] else []))
            else if 0 < vec_size
            then Inr (if exponent \<noteq> - 1 then [Unused_feat_vec_exponent] else [])
            else if exponent \<le> 0 then Inl ValueError
            else Inr []) of
        Inl e \<Rightarrow> Inl e
      | Inr warnings \<Rightarrow>
          (case pads of
             None \<Rightarrow> Inl TypeError
           | Some ps \<Rightarrow>
               if length vocab_sizes \<noteq> length ps then Inl ValueError else Inr warnings))"

text \<open>
  \<open>int(vocab ** exponent)\<close> for an integer \<open>vocab\<close> and a float \<open>exponent\<close>.
  The power is computed in floating point by the language runtime, so it is
  the parameter \<open>float_pow\<close>: it gives the float that \<open>vocab ** exponent\<close>
  evaluates to, or the exception that ends the evaluation
  (\<open>OverflowError\<close> when the base or the result is too large for a float,
  \<open>ZeroDivisionError\<close> for a zero base with a negative exponent, and, for a
  negative base with an exponent that is not whole, where the power is a
  complex number, the \<open>TypeError\<close> that \<open>int\<close> raises on it). \<open>int\<close>
  truncates a float towards zero.
\<close>

definition trunc :: "real \<Rightarrow> int" where
  "trunc x = (if x < 0 then \<lceil>x\<rceil> else \<lfloor>x\<rfloor>)"

definition int_pow :: "(int \<Rightarrow> real \<Rightarrow> py_error + real) \<Rightarrow> int \<Rightarrow> real \<Rightarrow> py_error + int" where
  "int_pow float_pow vocab exponent =
     (case float_pow vocab exponent of
        Inl e \<Rightarrow> Inl e
      | Inr x \<Rightarrow> Inr (trunc x))"

definition feat_dims :: "(int \<Rightarrow> real \<Rightarrow> py_error + real) \<Rightarrow> Embeddings_args \<Rightarrow> py_error + int list" where
  "feat_dims float_pow args =
     (if feat_merge args = ''sum''
      then Inr (replicate (length (feat_vocab_sizes args)) (word_vec_size args))
      else if 0 < feat_vec_size args
      then Inr (replicate (length (feat_vocab_sizes args)) (feat_vec_size args))
      else collect (map (\<lambda>vocab. int_pow float_pow vocab (feat_vec_exponent args))
                      (feat_vocab_sizes args)))"

text \<open>
  Modelled from the spec: the class \<open>Elementwise\<close> (mammoth.modules.util_class)
  is not among the sources. By the spec's data model a merge configuration is
  one of \<open>concat\<close>, \<open>sum\<close> and \<open>mlp\<close>; the constructor is taken to accept
  these and to keep the tables in their order.
\<close>

definition Elementwise_init :: "string \<Rightarrow> Embedding list \<Rightarrow> py_error + Embedding list" where
  "Elementwise_init merge embeddings =
     (if merge \<in> {''concat'', ''sum'', ''mlp''} then Inr embeddings else Inl AssertionError)"

text \<open>
  \<open>emb_params\<close>: the triples \<open>zip(vocab_sizes, emb_dims, pad_indices)\<close>, the
  word channel first.
\<close>

definition emb_params :: "Embeddings_args \<Rightarrow> int list \<Rightarrow> int list \<Rightarrow> (int \<times> int \<times> int) list" where
  "emb_params args fdims pads =
     zip (word_vocab_size args # feat_vocab_sizes args)
       (zip (word_vec_size args # fdims) (word_padding_idx args # pads))"

definition make_table :: "bool \<Rightarrow> (nat \<Rightarrow> nat \<Rightarrow> nat \<Rightarrow> real) \<Rightarrow> nat \<times> int \<times> int \<times> int \<Rightarrow> py_error + Embedding" where
  "make_table embeddingless rand p =
     (case p of (k, vocab, dim', pad) \<Rightarrow>
        if \<not> embeddingless then nn_Embedding (rand k) vocab dim' pad
        else create_embeddingless (rand k) vocab dim' pad)"

text \<open>
  \<open>__init__\<close>, in the order of the source: validation, the widths, the tables
  (the first exception of the list comprehension wins), the \<open>Elementwise\<close>
  stage, \<open>embedding_size\<close>, the \<open>mlp\<close> stage, the positional encoding (with
  its default \<open>max_len = 5000\<close>) and the freezing of the word table. \<open>rand k\<close>
  are the random draws for the initial weights of table \<open>k\<close>, and
  \<open>float_pow\<close> is the float power of the runtime.
\<close>

definition Embeddings_init ::
  "(int \<Rightarrow> real \<Rightarrow> py_error + real) \<Rightarrow> (nat \<Rightarrow> nat \<Rightarrow> nat \<Rightarrow> real) \<Rightarrow> Embeddings_args \<Rightarrow>
   py_error + Embeddings" where
  "Embeddings_init float_pow rand args =
     (case validate_args (feat_merge args) (feat_vocab_sizes args) (feat_vec_exponent args)
             (feat_vec_size args) (feat_padding_idx args) of
        Inl e \<Rightarrow> Inl e
      | Inr warnings \<Rightarrow>
     (case feat_dims float_pow args of
        Inl e \<Rightarrow> Inl e
      | Inr fdims \<Rightarrow>
     (let pads = (case feat_padding_idx args of None \<Rightarrow> [] | Some ps \<Rightarrow> ps);
          emb_dims = word_vec_size args # fdims
      in
     (case collect (map (make_table (enable_embeddingless args) rand)
                      (enumerate 0 (emb_params args fdims pads))) of
        Inl e \<Rightarrow> Inl e
      | Inr embeddings \<Rightarrow>
     (case Elementwise_init (feat_merge args) embeddings of
        Inl e \<Rightarrow> Inl e
      | Inr emb_luts \<Rightarrow>
     (let embedding_size =
            (if feat_merge args = ''concat'' then sum_list emb_dims else word_vec_size args);
          mlp = (if feat_merge args = ''mlp'' \<and> 0 < length (feat_vocab_sizes args)
                 then Some (sum_list emb_dims, word_vec_size args) else None)
      in
     (case (if position_encoding args
            then (case PositionalEncoding_init (dropout args) embedding_size 5000 of
                    Inl e \<Rightarrow> Inl e
                  | Inr p \<Rightarrow> Inr (Some p))
            else Inr None) of
        Inl e \<Rightarrow> Inl e
      | Inr pe_stage \<Rightarrow>
          Inr \<lparr>self_word_padding_idx = word_padding_idx args,
               self_word_vec_size = word_vec_size args,
               self_embedding_size = embedding_size,
               self_emb_luts =
                 (if freeze_word_vecs args
                  then (case emb_luts of
                          [] \<Rightarrow> []
                        | word_lut # feats \<Rightarrow> word_lut\<lparr>requires_grad := False\<rparr> # feats)
                  else emb_luts),
               self_merge = feat_merge args,
               self_mlp = mlp,
               self_position_encoding = position_encoding args,
               self_pe = pe_stage\<rparr>)))))))"

section \<open>Loading pretrained vectors\<close>

text \<open>
  The tensor that \<open>torch.load(emb_file)\<close> returns: its rows and its
  \<open>size(1)\<close>, the width of every row.
\<close>

record pretrained =
  vectors :: tensor2
  size1 :: nat

text \<open>
  Copying a source of \<open>length (vectors src)\<close> rows and \<open>size1 src\<close> columns
  into a destination of \<open>r\<close> rows and \<open>c\<close> columns, as \<open>copy_\<close> and the slice
  assignment do: an axis of the source must have the destination's size or
  size 1 (it is then repeated), and a \<open>RuntimeError\<close> is raised otherwise.
\<close>

definition broadcast_to :: "nat \<Rightarrow> nat \<Rightarrow> pretrained \<Rightarrow> py_error + tensor2" where
  "broadcast_to r c src =
     (if (length (vectors src) = r \<or> length (vectors src) = 1) \<and> (size1 src = c \<or> size1 src = 1)
      then Inr (map (\<lambda>v. if size1 src = c then v else replicate c (hd v))
                  (if length (vectors src) = r then vectors src
                   else replicate r (hd (vectors src))))
      else Inl RuntimeError)"

text \<open>The column slice \<open>pretrained[:, :w]\<close>.\<close>

definition slice_cols :: "pretrained \<Rightarrow> int \<Rightarrow> pretrained" where
  "slice_cols src w =
     \<lparr>vectors = map (\<lambda>v. py_slice v 0 w) (vectors src),
      size1 = length (py_slice (replicate (size1 src) ()) 0 w)\<rparr>"

text \<open>
  \<open>load_pretrained_vectors(emb_file)\<close>. \<open>emb_file\<close> is \<open>None\<close> or a path, and
  nothing happens when it is falsy (\<open>None\<close> or the empty string); \<open>torch_load\<close>
  is the file system as \<open>torch.load\<close> reads it. The word table is the first
  table of the \<open>Elementwise\<close> stage. The three branches compare
  \<open>self.word_vec_size\<close> with the width of the loaded tensor.
\<close>

definition load_pretrained_vectors ::
  "(string \<Rightarrow> py_error + pretrained) \<Rightarrow> Embeddings \<Rightarrow> string option \<Rightarrow> py_error + Embeddings" where
  "load_pretrained_vectors torch_load self emb_file =
     (case emb_file of
        None \<Rightarrow> Inr self
      | Some path \<Rightarrow>
          if path = [] then Inr self
          else (case torch_load path of
                  Inl e \<Rightarrow> Inl e
                | Inr loaded \<Rightarrow>
                    (case self_emb_luts self of
                       [] \<Rightarrow> Inl IndexError
                     | word_lut # feats \<Rightarrow>
                         (let pretrained_vec_size = int (size1 loaded);
                              r = length (weight word_lut);
                              c = nat (embedding_dim word_lut)
                          in
                          case (if pretrained_vec_size < self_word_vec_size self
                                then (case broadcast_to r (min (size1 loaded) c) loaded of
                                        Inl e \<Rightarrow> Inl e
                                      | Inr src \<Rightarrow>
                                          Inr (map2 (\<lambda>s old. s @ drop (min (size1 loaded) c) old) src (weight word_lut)))
                                else if self_word_vec_size self < pretrained_vec_size
                                then broadcast_to r c (slice_cols loaded (self_word_vec_size self))
                                else broadcast_to r c loaded) of
                            Inl e \<Rightarrow> Inl e
                          | Inr w \<Rightarrow>
                              Inr (self\<lparr>self_emb_luts := word_lut\<lparr>weight := w\<rparr> # feats\<rparr>)))))"

section \<open>Reading an embeddings file\<close>

text \<open>
  \<open>read_embeddings\<close> reads the file in binary mode, line by line. A line is
  the list of its bytes, with its line end; \<open>decode\<close> is \<open>bytes.decode('utf8')\<close>
  (it raises on bytes that are no UTF-8) and \<open>float_of\<close> is Python's \<open>float\<close>
  on a string (it raises \<open>ValueError\<close> on a string that is no number). The
  decoded text is a list of characters with code points below 256.
\<close>

text \<open>\<open>str.isspace\<close> on the code points below 256, which \<open>str.strip()\<close> removes at both ends.\<close>

definition py_isspace :: "char \<Rightarrow> bool" where
  "py_isspace c \<longleftrightarrow> (of_char c :: nat) \<in> {9, 10, 11, 12, 13, 28, 29, 30, 31, 32, 133, 160}"

definition py_strip :: "string \<Rightarrow> string" where
  "py_strip s = rev (dropWhile py_isspace (rev (dropWhile py_isspace s)))"

text \<open>
  Cutting a string at every character that satisfies \<open>sep\<close>: the pieces
  between two cuts, empty ones included, so there is always at least one.
  \<open>s.split(' ')\<close> cuts at every single space.
\<close>

fun split_when :: "(char \<Rightarrow> bool) \<Rightarrow> string \<Rightarrow> string list" where
  "split_when sep [] = [[]]"
| "split_when sep (c # cs) =
     (if sep c then [] # split_when sep cs
      else (case split_when sep cs of
              [] \<Rightarrow> [[c]]
            | w # ws \<Rightarrow> (c # w) # ws))"

definition py_split_space :: "string \<Rightarrow> string list" where
  "py_split_space s = split_when (\<lambda>c. c = CHR '' '') s"

text \<open>The fields of a decoded line: \<open>line.strip().split(' ')\<close>.\<close>

definition l_split :: "string \<Rightarrow> string list" where
  "l_split text = py_split_space (py_strip text)"

text \<open>The filter: a line is dropped when \<open>filter_set is not None and l_split[0] not in filter_set\<close>.\<close>

definition filtered_out :: "string set option \<Rightarrow> string list \<Rightarrow> bool" where
  "filtered_out filter_set fs =
     (case filter_set of None \<Rightarrow> False | Some allowed \<Rightarrow> hd fs \<notin> allowed)"

text \<open>
  The loop \<open>for i, line in enumerate(f)\<close>, with the dictionary \<open>embs\<close> and the
  counter \<open>total_vectors_in_file\<close> (here \<open>n_vectors\<close>) as accumulators. An empty line ends the
  loop (\<open>break\<close>); the test \<open>len(line) == 0\<close> after it can never hold. The
  first exception ends the call.
\<close>

fun read_loop ::
  "(string \<Rightarrow> py_error + string) \<Rightarrow> (string \<Rightarrow> py_error + 'f) \<Rightarrow> int \<Rightarrow> string set option \<Rightarrow>
   (string \<rightharpoonup> 'f list) \<Rightarrow> nat \<Rightarrow> nat \<Rightarrow> string list \<Rightarrow> py_error + (string \<rightharpoonup> 'f list) \<times> nat" where
  "read_loop decode float_of skip_lines filter_set embs n_vectors i [] = Inr (embs, n_vectors)"
| "read_loop decode float_of skip_lines filter_set embs n_vectors i (line # rest) =
     (if int i < skip_lines then read_loop decode float_of skip_lines filter_set embs n_vectors (Suc i) rest
      else if line = [] then Inr (embs, n_vectors)
      else if length line = 0 then read_loop decode float_of skip_lines filter_set embs n_vectors (Suc i) rest
      else (case decode line of
              Inl e \<Rightarrow> Inl e
            | Inr text \<Rightarrow>
                if length (l_split text) = 2
                then read_loop decode float_of skip_lines filter_set embs n_vectors (Suc i) rest
                else if filtered_out filter_set (l_split text)
                then read_loop decode float_of skip_lines filter_set embs (Suc n_vectors) (Suc i) rest
                else (case collect (map float_of (tl (l_split text))) of
                        Inl e \<Rightarrow> Inl e
                      | Inr vec \<Rightarrow>
                          read_loop decode float_of skip_lines filter_set
                            (embs(hd (l_split text) \<mapsto> vec)) (Suc n_vectors) (Suc i) rest)))"

definition read_embeddings ::
  "(string \<Rightarrow> py_error + string) \<Rightarrow> (string \<Rightarrow> py_error + 'f) \<Rightarrow> string list \<Rightarrow> int \<Rightarrow>
   string set option \<Rightarrow> py_error + (string \<rightharpoonup> 'f list) \<times> nat" where
  "read_embeddings decode float_of file skip_lines filter_set =
     read_loop decode float_of skip_lines filter_set Map.empty 0 0 file"

text \<open>
  For comparison, splitting on whitespace as \<open>str.split()\<close> without an
  argument does: the fields are the maximal runs of characters that are not
  whitespace.
\<close>

definition split_whitespace :: "string \<Rightarrow> string list" where
  "split_whitespace s = filter (\<lambda>w. w \<noteq> []) (split_when py_isspace s)"

text \<open>
  What the loop computes, said without the loop: the lines after the skipped
  ones, up to the first empty line; the fields of those that do not have
  exactly two fields; those among them that pass the filter; and the
  dictionary that maps the first field of each to the values of its other
  fields, a later line replacing an earlier one with the same first field.
  \<open>text\<close> gives the decoded text of a line and \<open>val\<close> the value of a field.
\<close>

definition body_lines :: "int \<Rightarrow> string list \<Rightarrow> string list" where
  "body_lines skip_lines file = takeWhile (\<lambda>line. line \<noteq> []) (drop (nat skip_lines) file)"

definition vector_fields :: "(string \<Rightarrow> string) \<Rightarrow> string list \<Rightarrow> string list list" where
  "vector_fields text ls = filter (\<lambda>fs. length fs \<noteq> 2) (map (\<lambda>line. l_split (text line)) ls)"

definition selected_fields :: "string set option \<Rightarrow> string list list \<Rightarrow> string list list" where
  "selected_fields filter_set fss = filter (\<lambda>fs. \<not> filtered_out filter_set fs) fss"

definition embeddings_of :: "(string \<Rightarrow> 'f) \<Rightarrow> string list list \<Rightarrow> (string \<rightharpoonup> 'f list) \<Rightarrow> (string \<rightharpoonup> 'f list)" where
  "embeddings_of val fss embs = fold (\<lambda>fs m. m(hd fs \<mapsto> map val (tl fs))) fss embs"

section \<open>Properties of the registry\<close>

lemma embeddings_key_inj: "embeddings_key a = embeddings_key b \<longleftrightarrow> a = b"
  by (simp add: embeddings_key_def)

lemma add_modules_lookup:
  "add_modules ms d = Inr ms' \<Longrightarrow> distinct (map fst d) \<Longrightarrow>
   ms' (embeddings_key k) = (case map_of d k of Some e \<Rightarrow> Some e | None \<Rightarrow> ms (embeddings_key k))"
proof (induction d arbitrary: ms)
  case Nil
  then show ?case by simp
next
  case (Cons p d)
  obtain key emb where p: "p = (key, emb)" by (cases p)
  from Cons.prems(1) p obtain ms1 where
    step: "add_module ms (embeddings_key key) emb = Inr ms1" and rest: "add_modules ms1 d = Inr ms'"
    by (auto split: sum.splits)
  from step have ms1: "ms1 = ms(embeddings_key key \<mapsto> emb)"
    by (auto simp: add_module_def split: if_splits)
  from Cons.prems(2) p have dist: "distinct (map fst d)" and fresh: "key \<notin> fst ` set d"
    by auto
  have IH: "ms' (embeddings_key k) = (case map_of d k of Some e \<Rightarrow> Some e | None \<Rightarrow> ms1 (embeddings_key k))"
    by (rule Cons.IH [OF rest dist])
  show ?case
  proof (cases "k = key")
    case True
    with fresh have "map_of d k = None"
      by (simp add: map_of_eq_None_iff)
    with IH ms1 True p show ?thesis by simp
  next
    case False
    with IH ms1 p show ?thesis
      by (simp add: embeddings_key_inj split: option.splits)
  qed
qed

lemma init_lookup:
  assumes "PluggableEmbeddings_init d = Inr reg" and "distinct (map fst d)"
  shows "modules reg (embeddings_key k) = map_of d k" and "active_key reg = None"
proof -
  from assms(1) obtain ms where ms: "add_modules Map.empty d = Inr ms"
    and reg: "reg = \<lparr>modules = ms, active_key = None\<rparr>"
    by (auto simp: PluggableEmbeddings_init_def split: sum.splits)
  from add_modules_lookup [OF ms assms(2), of k] reg
  show "modules reg (embeddings_key k) = map_of d k"
    by (simp split: option.splits)
  from reg show "active_key reg = None" by simp
qed

text \<open>
  C1. For a registry built from a dictionary \<open>d\<close> (a dictionary has each key
  once): \<open>forward\<close> on the fresh registry raises the "not activated" exception;
  whatever key is active, \<open>activate k\<close> for a key that is not in \<open>d\<close> raises;
  and \<open>activate k\<close> for a key of \<open>d\<close> returns without raising and \<open>forward\<close> then
  returns exactly what the \<open>forward\<close> of the instance registered under \<open>k\<close>
  returns on the same source and step.
\<close>

theorem pluggable_forward_delegates:
  assumes "PluggableEmbeddings_init d = Inr reg" and "distinct (map fst d)"
  shows "forward fwd reg source step = Inl NotActivated \<and>
         (k \<notin> fst ` set d \<longrightarrow>
            fst (activate (reg\<lparr>active_key := ak\<rparr>) k) = Some AssertionError) \<and>
         (map_of d k = Some e \<longrightarrow>
            fst (activate (reg\<lparr>active_key := ak\<rparr>) k) = None \<and>
            forward fwd (snd (activate (reg\<lparr>active_key := ak\<rparr>) k)) source step = fwd e source step)"
proof -
  note look = init_lookup [OF assms]
  have a: "forward fwd reg source step = Inl NotActivated"
    by (simp add: forward_def active_embeddings_def look(2))
  have b: "fst (activate (reg\<lparr>active_key := ak\<rparr>) k) = Some AssertionError" if "k \<notin> fst ` set d"
  proof -
    from that have "map_of d k = None" by (simp add: map_of_eq_None_iff)
    then show ?thesis by (simp add: activate_def dom_def look(1))
  qed
  have c: "fst (activate (reg\<lparr>active_key := ak\<rparr>) k) = None \<and>
        forward fwd (snd (activate (reg\<lparr>active_key := ak\<rparr>) k)) source step = fwd e source step"
    if "map_of d k = Some e"
    using that by (simp add: activate_def dom_def forward_def active_embeddings_def look(1))
  from a b c show ?thesis by blast
qed

theorem pluggable_forward_delegates_witness:
  "PluggableEmbeddings_init [(''en'', 1::nat), (''de'', 2)] =
     Inr \<lparr>modules = [embeddings_key ''en'' \<mapsto> 1, embeddings_key ''de'' \<mapsto> 2], active_key = None\<rparr> \<and>
   distinct (map fst [(''en'', 1::nat), (''de'', 2)]) \<and>
   forward (\<lambda>e src (st::nat option). Inr (e + src))
     \<lparr>modules = [embeddings_key ''en'' \<mapsto> 1, embeddings_key ''de'' \<mapsto> 2], active_key = None\<rparr>
     (5::nat) None = (Inl NotActivated :: py_error + nat) \<and>
   fst (activate \<lparr>modules = [embeddings_key ''en'' \<mapsto> 1::nat, embeddings_key ''de'' \<mapsto> 2], active_key = None\<rparr> ''xx'')
     = Some AssertionError \<and>
   forward (\<lambda>e src (st::nat option). Inr (e + src))
     (snd (activate \<lparr>modules = [embeddings_key ''en'' \<mapsto> 1, embeddings_key ''de'' \<mapsto> 2], active_key = None\<rparr> ''en''))
     (5::nat) None = (Inr 6 :: py_error + nat)"
proof -
  let ?d = "[(''en'', 1::nat), (''de'', 2)]"
  let ?reg = "\<lparr>modules = [embeddings_key ''en'' \<mapsto> 1::nat, embeddings_key ''de'' \<mapsto> 2], active_key = None\<rparr>"
  let ?fwd = "\<lambda>(e::nat) (src::nat) (st::nat option). (Inr (e + src) :: py_error + nat)"
  have h1: "PluggableEmbeddings_init ?d = Inr ?reg"
    by (simp add: PluggableEmbeddings_init_def add_module_def embeddings_key_def)
  have h2: "distinct (map fst ?d)" by simp
  have xx: "''xx'' \<notin> fst ` set ?d" by simp
  have en: "map_of ?d ''en'' = Some 1" by simp
  from pluggable_forward_delegates [OF h1 h2, where fwd = ?fwd and source = 5 and step = None
      and k = "''xx''" and ak = None] xx
  have a: "forward ?fwd ?reg 5 None = Inl NotActivated"
    and b: "fst (activate ?reg ''xx'') = Some AssertionError"
    by simp_all
  from pluggable_forward_delegates [OF h1 h2, where fwd = ?fwd and source = 5 and step = None
      and k = "''en''" and ak = None and e = 1] en
  have c: "forward ?fwd (snd (activate ?reg ''en'')) 5 None = Inr 6"
    by simp
  from h1 h2 a b c show ?thesis by blast
qed

text \<open>
  C10. A failed \<open>activate\<close> (the key is not registered) leaves the registry as it
  was, whatever key was active: a registry that was never activated still
  raises the "not activated" exception on \<open>forward\<close>, and a registry with an
  active key \<open>k0\<close> still forwards through the instance registered under \<open>k0\<close>.
\<close>

theorem failed_activate_keeps_state:
  assumes "PluggableEmbeddings_init d = Inr reg" and "distinct (map fst d)"
    and "k \<notin> fst ` set d"
  shows "activate (reg\<lparr>active_key := ak\<rparr>) k = (Some AssertionError, reg\<lparr>active_key := ak\<rparr>) \<and>
         (ak = None \<longrightarrow>
            forward fwd (snd (activate (reg\<lparr>active_key := ak\<rparr>) k)) source step = Inl NotActivated) \<and>
         (ak = Some k0 \<and> map_of d k0 = Some e \<longrightarrow>
            forward fwd (snd (activate (reg\<lparr>active_key := ak\<rparr>) k)) source step = fwd e source step)"
proof -
  note look = init_lookup [OF assms(1,2)]
  from assms(3) have "map_of d k = None" by (simp add: map_of_eq_None_iff)
  then have same: "activate (reg\<lparr>active_key := ak\<rparr>) k = (Some AssertionError, reg\<lparr>active_key := ak\<rparr>)"
    by (simp add: activate_def dom_def look(1))
  have none: "forward fwd (reg\<lparr>active_key := None\<rparr>) source step = Inl NotActivated"
    by (simp add: forward_def active_embeddings_def)
  have some: "forward fwd (reg\<lparr>active_key := Some k0\<rparr>) source step = fwd e source step"
    if "map_of d k0 = Some e"
    using that by (simp add: forward_def active_embeddings_def look(1))
  from same none some show ?thesis by auto
qed

theorem failed_activate_keeps_state_witness:
  "PluggableEmbeddings_init [(''en'', 1::nat), (''de'', 2)] =
     Inr \<lparr>modules = [embeddings_key ''en'' \<mapsto> 1, embeddings_key ''de'' \<mapsto> 2], active_key = None\<rparr> \<and>
   distinct (map fst [(''en'', 1::nat), (''de'', 2)]) \<and>
   ''xx'' \<notin> fst ` set [(''en'', 1::nat), (''de'', 2)] \<and>
   activate \<lparr>modules = [embeddings_key ''en'' \<mapsto> 1::nat, embeddings_key ''de'' \<mapsto> 2], active_key = Some ''de''\<rparr> ''xx'' =
     (Some AssertionError,
      \<lparr>modules = [embeddings_key ''en'' \<mapsto> 1, embeddings_key ''de'' \<mapsto> 2], active_key = Some ''de''\<rparr>) \<and>
   forward (\<lambda>e src (st::nat option). Inr (e + src))
     (snd (activate \<lparr>modules = [embeddings_key ''en'' \<mapsto> 1, embeddings_key ''de'' \<mapsto> 2], active_key = Some ''de''\<rparr> ''xx''))
     (5::nat) None = (Inr 7 :: py_error + nat)"
proof -
  let ?d = "[(''en'', 1::nat), (''de'', 2)]"
  let ?reg = "\<lparr>modules = [embeddings_key ''en'' \<mapsto> 1::nat, embeddings_key ''de'' \<mapsto> 2], active_key = None\<rparr>"
  let ?fwd = "\<lambda>(e::nat) (src::nat) (st::nat option). (Inr (e + src) :: py_error + nat)"
  have h1: "PluggableEmbeddings_init ?d = Inr ?reg"
    by (simp add: PluggableEmbeddings_init_def add_module_def embeddings_key_def)
  have h2: "distinct (map fst ?d)" by simp
  have h3: "''xx'' \<notin> fst ` set ?d" by simp
  have de: "map_of ?d ''de'' = Some 2" by simp
  let ?reg2 = "\<lparr>modules = [embeddings_key ''en'' \<mapsto> 1::nat, embeddings_key ''de'' \<mapsto> 2], active_key = Some ''de''\<rparr>"
  have upd: "?reg\<lparr>active_key := Some ''de''\<rparr> = ?reg2" by simp
  from failed_activate_keeps_state [OF h1 h2 h3, where fwd = ?fwd and source = 5 and step = None
      and ak = "Some ''de''" and ?k0.0 = "''de''" and e = 2] de
  have a: "activate ?reg2 ''xx'' = (Some AssertionError, ?reg2)"
    and b0: "forward ?fwd (snd (activate ?reg2 ''xx'')) 5 None = ?fwd 2 5 None"
    unfolding upd by blast+
  from b0 have b: "forward ?fwd (snd (activate ?reg2 ''xx'')) 5 None = Inr 7"
    by simp
  from h1 h2 h3 a b show ?thesis by blast
qed

section \<open>Properties of the positional encoding\<close>

lemma collect_map_Inr:
  "(\<And>x. x \<in> set xs \<Longrightarrow> f x = Inr (g x)) \<Longrightarrow> collect (map f xs) = Inr (map g xs)"
  by (induction xs) auto

lemma add_row_same:
  assumes "\<And>v. v \<in> set row \<Longrightarrow> length v = length w"
  shows "add_row row w = Inr (map (\<lambda>v. map2 (+) v w) row)"
  unfolding add_row_def by (rule collect_map_Inr) (simp add: add_vec_def assms)

lemma tensor_add_same:
  assumes len: "length emb = length rows"
    and shape: "\<And>row v w. row \<in> set emb \<Longrightarrow> v \<in> set row \<Longrightarrow> w \<in> set rows \<Longrightarrow> length v = length w"
  shows "tensor_add emb rows = Inr (map2 (\<lambda>row w. map (\<lambda>v. map2 (+) v w) row) emb rows)"
proof -
  have "collect (map (\<lambda>(row, w). add_row row w) (zip emb rows)) =
        Inr (map (\<lambda>(row, w). map (\<lambda>v. map2 (+) v w) row) (zip emb rows))"
  proof (rule collect_map_Inr)
    fix x assume "x \<in> set (zip emb rows)"
    then obtain row w where x: "x = (row, w)" and "row \<in> set emb" and "w \<in> set rows"
      by (metis prod.collapse set_zip_leftD set_zip_rightD)
    then have "add_row row w = Inr (map (\<lambda>v. map2 (+) v w) row)"
      by (intro add_row_same) (auto dest: shape)
    with x show "(case x of (row, w) \<Rightarrow> add_row row w) = Inr (case x of (row, w) \<Rightarrow> map (\<lambda>v. map2 (+) v w) row)"
      by simp
  qed
  with len show ?thesis by (simp add: tensor_add_def)
qed

lemma py_slice_nonneg:
  "0 \<le> a \<Longrightarrow> a \<le> b \<Longrightarrow> py_slice xs a b = take (nat (b - a)) (drop (nat a) xs)"
  by (auto simp: py_slice_def Let_def min_def intro!: nth_equalityI)

lemma pe_table_rows:
  "length (pe_table dim' max_len) = nat max_len"
  "w \<in> set (pe_table dim' max_len) \<Longrightarrow> length w = nat dim'"
  by (auto simp: pe_table_def)

lemma init_fields:
  "PositionalEncoding_init prob dim' max_len = Inr self \<Longrightarrow>
   pe self = pe_table dim' max_len \<and> pe_dropout self = prob \<and> pe_dim self = dim' \<and>
   even dim' \<and> 0 < dim' \<and> 0 \<le> max_len \<and> 0 \<le> prob \<and> prob \<le> 1"
  by (auto simp: PositionalEncoding_init_def split: if_splits)

lemma pe_table_2_2: "pe_table 2 2 = [[0, 1], [sin 1, cos 1]]"
  by (simp add: pe_table_def pe_entry_def div_term_def upt_rec numeral_2_eq_2 nat_numeral)

lemma init_2_2:
  "PositionalEncoding_init 0 2 2 = Inr \<lparr>pe = [[0, 1], [sin 1, cos 1]], pe_dropout = 0, pe_dim = 2\<rparr>"
  by (simp add: PositionalEncoding_init_def pe_table_2_2)

text \<open>
  C2. For a PositionalEncoding constructed with width \<open>dim\<close> and maximum length
  \<open>max_len\<close> (construction succeeds only for an even, positive width), an
  input of \<open>length emb\<close> positions whose vectors have width \<open>dim\<close>, and an offset
  \<open>step or 0\<close> that is not negative: when offset plus length is at most
  \<open>max_len\<close>, \<open>forward\<close> returns the dropout layer applied to the input scaled
  by \<open>sqrt dim\<close> plus the rows \<open>[offset, offset + length)\<close> of the table
  computed at construction; when it is more, \<open>forward\<close> raises
  \<open>SequenceTooLongError\<close> and the table is not extended. In evaluation mode
  and for dropout probability 0 the dropout layer is the identity, and the
  result is then the scaled input plus the positional rows themselves.
\<close>

theorem positional_encoding_forward_bound:
  assumes init: "PositionalEncoding_init prob dim' max_len = Inr self"
    and shape: "\<forall>row\<in>set emb. \<forall>v\<in>set row. int (length v) = dim'"
    and off: "0 \<le> step_or_0 step"
  shows "(step_or_0 step + int (length emb) \<le> max_len \<longrightarrow>
           PositionalEncoding_forward self training keep emb step =
             Inr (nn_dropout prob training keep
                   (map2 (\<lambda>row w. map (\<lambda>v. map2 (+) (map (\<lambda>x. x * sqrt (real_of_int dim')) v) w) row)
                      emb (take (length emb) (drop (nat (step_or_0 step)) (pe_table dim' max_len)))))) \<and>
         (max_len < step_or_0 step + int (length emb) \<longrightarrow>
           PositionalEncoding_forward self training keep emb step = Inl SequenceTooLongError) \<and>
         ((\<not> training \<or> prob = 0) \<and> step_or_0 step + int (length emb) \<le> max_len \<longrightarrow>
           PositionalEncoding_forward self training keep emb step =
             Inr (map2 (\<lambda>row w. map (\<lambda>v. map2 (+) (map (\<lambda>x. x * sqrt (real_of_int dim')) v) w) row)
                    emb (take (length emb) (drop (nat (step_or_0 step)) (pe_table dim' max_len)))))"
proof -
  note f = init_fields [OF init]
  let ?o = "step_or_0 step"
  let ?emb1 = "map (map (map (\<lambda>x. x * sqrt (real_of_int dim')))) emb"
  let ?rows = "take (length emb) (drop (nat ?o) (pe self))"
  have len_pe: "int (length (pe self)) = max_len"
    using f by (simp add: pe_table_rows)
  have too_long: "PositionalEncoding_forward self training keep emb step = Inl SequenceTooLongError"
    if "max_len < ?o + int (length emb)"
    using that len_pe by (simp add: PositionalEncoding_forward_def Let_def)
  have ok: "PositionalEncoding_forward self training keep emb step =
      Inr (nn_dropout prob training keep
            (map2 (\<lambda>row w. map (\<lambda>v. map2 (+) (map (\<lambda>x. x * sqrt (real_of_int dim')) v) w) row) emb ?rows))"
    if fits: "?o + int (length emb) \<le> max_len"
  proof -
    have slice: "py_slice (pe self) ?o (int (length ?emb1) + ?o) = ?rows"
      using off by (simp add: py_slice_nonneg)
    have len_rows: "length ?emb1 = length ?rows"
      using fits off len_pe by simp
    have add: "tensor_add ?emb1 ?rows =
        Inr (map2 (\<lambda>row w. map (\<lambda>v. map2 (+) v w) row) ?emb1 ?rows)"
    proof (rule tensor_add_same [OF len_rows])
      fix row v w
      assume "row \<in> set ?emb1" and v: "v \<in> set row" and "w \<in> set ?rows"
      then have "w \<in> set (pe_table dim' max_len)"
        using f by (auto dest!: in_set_takeD in_set_dropD)
      then have lw: "length w = nat dim'" by (rule pe_table_rows)
      from \<open>row \<in> set ?emb1\<close> v obtain row0 v0 where "row0 \<in> set emb" "v0 \<in> set row0"
        and "v = map (\<lambda>x. x * sqrt (real_of_int dim')) v0"
        by auto
      with shape have "int (length v) = dim'" by auto
      with lw show "length v = length w" by simp
    qed
    have reshape: "map2 (\<lambda>row w. map (\<lambda>v. map2 (+) v w) row) ?emb1 ?rows =
        map2 (\<lambda>row w. map (\<lambda>v. map2 (+) (map (\<lambda>x. x * sqrt (real_of_int dim')) v) w) row) emb ?rows"
      by (simp add: zip_map1 comp_def case_prod_unfold)
    from fits len_pe have "\<not> int (length (pe self)) < ?o + int (length ?emb1)" by simp
    with slice add reshape f show ?thesis
      by (simp add: PositionalEncoding_forward_def Let_def)
  qed
  have drop_id: "nn_dropout prob training keep x = x" if "\<not> training \<or> prob = 0" for x
    using that by (auto simp: nn_dropout_def)
  from f have tab: "pe self = pe_table dim' max_len" by simp
  have plain: "PositionalEncoding_forward self training keep emb step =
      Inr (map2 (\<lambda>row w. map (\<lambda>v. map2 (+) (map (\<lambda>x. x * sqrt (real_of_int dim')) v) w) row) emb ?rows)"
    if "\<not> training \<or> prob = 0" and "?o + int (length emb) \<le> max_len"
    using ok [OF that(2)] drop_id [OF that(1)] by simp
  from too_long ok plain show ?thesis unfolding tab by blast
qed

theorem positional_encoding_forward_bound_witness:
  "PositionalEncoding_init 0 2 2 = Inr \<lparr>pe = [[0, 1], [sin 1, cos 1]], pe_dropout = 0, pe_dim = 2\<rparr> \<and>
   PositionalEncoding_forward \<lparr>pe = [[0, 1], [sin 1, cos 1]], pe_dropout = 0, pe_dim = 2\<rparr>
     True (\<lambda>i b j. False) [[[1, 0]]] (Some 1) = Inr [[[sqrt 2 + sin 1, cos 1]]] \<and>
   PositionalEncoding_forward \<lparr>pe = [[0, 1], [sin 1, cos 1]], pe_dropout = 0, pe_dim = 2\<rparr>
     True (\<lambda>i b j. False) [[[1, 0]]] (Some 2) = Inl SequenceTooLongError"
proof -
  let ?self = "\<lparr>pe = [[0, 1], [sin 1, cos 1]], pe_dropout = 0, pe_dim = 2\<rparr>"
  let ?emb = "[[[1, 0]]] :: tensor3"
  have shape: "\<forall>row\<in>set ?emb. \<forall>v\<in>set row. int (length v) = 2" by simp
  have "step_or_0 (Some 1) + int (length ?emb) \<le> 2" by (simp add: step_or_0_def)
  with positional_encoding_forward_bound [OF init_2_2 shape, where step = "Some 1"
        and training = True and keep = "\<lambda>i b j. False"]
  have "PositionalEncoding_forward ?self True (\<lambda>i b j. False) ?emb (Some 1) =
      Inr (nn_dropout 0 True (\<lambda>i b j. False)
            (map2 (\<lambda>row w. map (\<lambda>v. map2 (+) (map (\<lambda>x. x * sqrt (real_of_int 2)) v) w) row)
               ?emb (take (length ?emb) (drop (nat (step_or_0 (Some 1))) (pe_table 2 2)))))"
    by (simp add: step_or_0_def)
  then have a: "PositionalEncoding_forward ?self True (\<lambda>i b j. False) ?emb (Some 1) = Inr [[[sqrt 2 + sin 1, cos 1]]]"
    by (simp add: step_or_0_def nn_dropout_def pe_table_2_2)
  have "2 < step_or_0 (Some 2) + int (length ?emb)" by (simp add: step_or_0_def)
  with positional_encoding_forward_bound [OF init_2_2 shape, where step = "Some 2"
        and training = True and keep = "\<lambda>i b j. False"]
  have b: "PositionalEncoding_forward ?self True (\<lambda>i b j. False) ?emb (Some 2) = Inl SequenceTooLongError"
    by (simp add: step_or_0_def)
  from init_2_2 a b show ?thesis by blast
qed

text \<open>
  The claim without the dropout layer fails in training mode: for a table of
  width 2 and length 1, dropout probability \<open>1/2\<close> and the one-position input
  \<open>[[[1, 0]]]\<close>, every entry of the sum is either zeroed or doubled, so
  whatever the draw the result differs from the scaled input plus the
  positional row.
\<close>

theorem positional_encoding_dropout_counterexample:
  "PositionalEncoding_init (1/2) 2 1 = Inr \<lparr>pe = [[0, 1]], pe_dropout = 1/2, pe_dim = 2\<rparr> \<and>
   (\<forall>keep. PositionalEncoding_forward \<lparr>pe = [[0, 1]], pe_dropout = 1/2, pe_dim = 2\<rparr>
      True keep [[[1, 0]]] None \<noteq> Inr [[[1 * sqrt 2 + 0, 0 * sqrt 2 + 1]]])"
  by (simp add: PositionalEncoding_init_def pe_table_def pe_entry_def div_term_def
      PositionalEncoding_forward_def step_or_0_def py_slice_def tensor_add_def add_row_def
      add_vec_def nn_dropout_def upt_rec numeral_2_eq_2 nat_numeral)

section \<open>Properties of the embedding tables\<close>

lemma collect_map_Inr_id: "collect (map Inr vs) = Inr vs"
  by (induction vs) auto

lemma collect_Inr_D: "collect rs = Inr vs \<Longrightarrow> rs = map Inr vs"
proof (induction rs arbitrary: vs)
  case Nil
  then show ?case by simp
next
  case (Cons r rs)
  then show ?case
    by (cases r) (auto split: sum.splits)
qed

lemma collect_Inr_iff: "collect rs = Inr vs \<longleftrightarrow> rs = map Inr vs"
  using collect_Inr_D collect_map_Inr_id by blast

lemma collect_Inl:
  assumes "x \<in> set xs" and "isl (f x)"
  shows "isl (collect (map f xs))"
proof (cases "collect (map f xs)")
  case (Inl e)
  then show ?thesis by simp
next
  case (Inr vs)
  then have "map f xs = map Inr vs" by (simp add: collect_Inr_iff)
  then have "f x \<in> set (map Inr vs)" using assms(1) by (metis image_eqI set_map)
  with assms(2) show ?thesis by auto
qed

lemma nn_Embedding_ok:
  assumes "0 \<le> pad" "pad < vocab" "0 \<le> dim'"
  shows "nn_Embedding init vocab dim' pad =
    Inr \<lparr>num_embeddings = vocab, embedding_dim = dim', padding_idx = pad,
         weight = map (\<lambda>i. map (\<lambda>j. if i = nat pad then 0 else init i j) [0..<nat dim']) [0..<nat vocab],
         requires_grad = True\<rparr>"
  using assms by (simp add: nn_Embedding_def)

lemma one_hot_embed_rows:
  assumes "0 \<le> pad" "pad < vocab" "vocab \<le> dim'"
  shows "(map2 (@) (map (\<lambda>i. map (\<lambda>j. if j = i then 1 else 0) [0..<nat vocab]) [0..<nat vocab])
            (replicate (nat vocab) (replicate (nat (dim' - vocab)) (0::real))))
         [nat pad := replicate (nat dim') 0] =
         map (\<lambda>i. if i = nat pad then replicate (nat dim') 0
                   else map (\<lambda>j. if j = i then 1 else 0) [0..<nat vocab] @ replicate (nat (dim' - vocab)) 0)
           [0..<nat vocab]"
  using assms by (auto intro!: nth_equalityI simp: nth_list_update)

text \<open>
  C4. A structured (embeddingless) table with vocabulary size \<open>vocab\<close>, width
  \<open>dim \<ge> vocab\<close> and padding index \<open>pad\<close> in \<open>[0, vocab)\<close>: construction
  succeeds, the row of every index other than \<open>pad\<close> is its one-hot vector
  followed by \<open>dim - vocab\<close> zeros, the row of \<open>pad\<close> is all zeros, and the
  weight is marked as not requiring gradients.
\<close>

theorem create_embeddingless_rows:
  assumes "0 \<le> pad" and "pad < vocab" and "vocab \<le> dim'"
  shows "create_embeddingless init vocab dim' pad =
    Inr \<lparr>num_embeddings = vocab, embedding_dim = dim', padding_idx = pad,
         weight = map (\<lambda>i. if i = nat pad then replicate (nat dim') 0
                           else map (\<lambda>j. if j = i then 1 else 0) [0..<nat vocab] @
                                replicate (nat (dim' - vocab)) 0)
                    [0..<nat vocab],
         requires_grad = False\<rparr>"
proof -
  have oh: "one_hot_arange vocab =
      Inr (map (\<lambda>i. map (\<lambda>j. if j = i then 1 else 0) [0..<nat vocab]) [0..<nat vocab])"
    using assms by (simp add: one_hot_arange_def)
  have z: "torch_zeros vocab (dim' - vocab) = Inr (replicate (nat vocab) (replicate (nat (dim' - vocab)) 0))"
    using assms by (simp add: torch_zeros_def)
  have sr: "set_row (cat_dim1 (map (\<lambda>i. map (\<lambda>j. if j = i then 1 else 0) [0..<nat vocab]) [0..<nat vocab])
               (replicate (nat vocab) (replicate (nat (dim' - vocab)) 0))) pad (replicate (nat dim') 0) =
      Inr (map (\<lambda>i. if i = nat pad then replicate (nat dim') 0
                   else map (\<lambda>j. if j = i then 1 else 0) [0..<nat vocab] @ replicate (nat (dim' - vocab)) 0)
           [0..<nat vocab])"
    using assms one_hot_embed_rows [OF assms] by (simp add: set_row_def cat_dim1_def Let_def)
  have emb: "nn_Embedding init vocab dim' pad =
    Inr \<lparr>num_embeddings = vocab, embedding_dim = dim', padding_idx = pad,
         weight = map (\<lambda>i. map (\<lambda>j. if i = nat pad then 0 else init i j) [0..<nat dim']) [0..<nat vocab],
         requires_grad = True\<rparr>"
    using assms by (intro nn_Embedding_ok) auto
  show ?thesis
    by (simp add: create_embeddingless_def oh z sr emb)
qed

theorem create_embeddingless_rows_witness:
  "(0::int) \<le> 1 \<and> (1::int) < 3 \<and> (3::int) \<le> 4 \<and>
   create_embeddingless (\<lambda>i j. 7) 3 4 1 =
     Inr \<lparr>num_embeddings = 3, embedding_dim = 4, padding_idx = 1,
          weight = [[1, 0, 0, 0], [0, 0, 0, 0], [0, 0, 1, 0]], requires_grad = False\<rparr>"
proof -
  have h: "(0::int) \<le> 1" "(1::int) < 3" "(3::int) \<le> 4" by simp_all
  from create_embeddingless_rows [OF h, of "\<lambda>i j. 7"]
  show ?thesis
    by (simp add: upt_rec eval_nat_numeral)
qed

lemma create_embeddingless_narrow:
  "dim' < vocab \<Longrightarrow> create_embeddingless init vocab dim' pad = Inl RuntimeError"
  by (simp add: create_embeddingless_def one_hot_arange_def torch_zeros_def)

lemma in_set_enumerate_ex: "x \<in> set xs \<Longrightarrow> \<exists>k. (k, x) \<in> set (enumerate n xs)"
  by (metis add.commute add_diff_cancel_right' in_set_conv_nth in_set_enumerate_eq le_add1
      nat_add_left_cancel_less prod.sel(1) prod.sel(2))

section \<open>Properties of the constructor\<close>

lemma collect_Inr_length: "collect rs = Inr vs \<Longrightarrow> length vs = length rs"
  by (auto dest: collect_Inr_D)

lemma collect_map_Inr_nth:
  "collect (map f xs) = Inr vs \<Longrightarrow> i < length xs \<Longrightarrow> f (xs ! i) = Inr (vs ! i)"
  by (drule collect_Inr_D) (metis length_map nth_map)

lemma validate_args_Inr_D:
  assumes "validate_args merge vocab_sizes exponent vec_size pads = Inr ws"
  shows "\<exists>ps. pads = Some ps \<and> length ps = length vocab_sizes"
    and "merge = ''sum'' \<or> 0 < vec_size \<or> 0 < exponent"
  using assms by (auto simp: validate_args_def split: if_splits sum.splits option.splits)

lemma feat_dims_length: "feat_dims float_pow args = Inr fdims \<Longrightarrow> length fdims = length (feat_vocab_sizes args)"
  by (auto simp: feat_dims_def split: if_splits dest: collect_Inr_length)

lemma nn_Embedding_Inr_D:
  assumes "nn_Embedding init vocab dim' pad = Inr t"
  shows "num_embeddings t = vocab \<and> embedding_dim t = dim' \<and> 0 \<le> vocab \<and> 0 \<le> dim' \<and>
         length (weight t) = nat vocab \<and> (\<forall>row\<in>set (weight t). length row = nat dim') \<and>
         requires_grad t"
  using assms by (auto simp: nn_Embedding_def Let_def split: if_splits)

lemma create_embeddingless_Inr_D:
  assumes "create_embeddingless init vocab dim' pad = Inr t"
  shows "num_embeddings t = vocab \<and> embedding_dim t = dim' \<and> 0 < vocab \<and> vocab \<le> dim' \<and>
         length (weight t) = nat vocab \<and> \<not> requires_grad t"
proof -
  from assms obtain oh z e emb where
    oh: "one_hot_arange vocab = Inr oh" and z: "torch_zeros vocab (dim' - vocab) = Inr z"
    and e: "set_row (cat_dim1 oh z) pad (replicate (nat dim') 0) = Inr e"
    and emb: "nn_Embedding init vocab dim' pad = Inr emb"
    and t: "t = emb\<lparr>weight := e, requires_grad := False\<rparr>"
    by (auto simp: create_embeddingless_def split: sum.splits)
  from oh have v: "0 < vocab" and ohl: "length oh = nat vocab"
    by (auto simp: one_hot_arange_def split: if_splits)
  from z have d: "vocab \<le> dim'" and zl: "length z = nat vocab"
    by (auto simp: torch_zeros_def split: if_splits)
  from e ohl zl have "length e = nat vocab"
    by (auto simp: set_row_def cat_dim1_def Let_def split: if_splits)
  with nn_Embedding_Inr_D [OF emb] t v d show ?thesis by simp
qed

lemma make_table_Inr_D:
  assumes "make_table b rand (k, vocab, dim', pad) = Inr t"
  shows "num_embeddings t = vocab \<and> embedding_dim t = dim' \<and> 0 \<le> vocab \<and> 0 \<le> dim' \<and>
         length (weight t) = nat vocab \<and> (b \<longrightarrow> vocab \<le> dim' \<and> \<not> requires_grad t)"
proof (cases b)
  case True
  with assms have "create_embeddingless (rand k) vocab dim' pad = Inr t"
    by (simp add: make_table_def)
  from create_embeddingless_Inr_D [OF this] True show ?thesis by simp
next
  case False
  with assms have "nn_Embedding (rand k) vocab dim' pad = Inr t"
    by (simp add: make_table_def)
  from nn_Embedding_Inr_D [OF this] False show ?thesis by simp
qed

text \<open>What a successful construction went through.\<close>

lemma Embeddings_init_Inr_D:
  assumes "Embeddings_init float_pow rand args = Inr inst"
  obtains fdims pads embeddings where
    "feat_dims float_pow args = Inr fdims"
    "feat_padding_idx args = Some pads"
    "length pads = length (feat_vocab_sizes args)"
    "length fdims = length (feat_vocab_sizes args)"
    "feat_merge args = ''sum'' \<or> 0 < feat_vec_size args \<or> 0 < feat_vec_exponent args"
    "collect (map (make_table (enable_embeddingless args) rand)
        (enumerate 0 (emb_params args fdims pads))) = Inr embeddings"
    "self_emb_luts inst =
       (if freeze_word_vecs args
        then (case embeddings of [] \<Rightarrow> [] | w # fs \<Rightarrow> w\<lparr>requires_grad := False\<rparr> # fs)
        else embeddings)"
    "self_embedding_size inst =
       (if feat_merge args = ''concat'' then sum_list (word_vec_size args # fdims) else word_vec_size args)"
    "self_mlp inst =
       (if feat_merge args = ''mlp'' \<and> 0 < length (feat_vocab_sizes args)
        then Some (sum_list (word_vec_size args # fdims), word_vec_size args) else None)"
    "self_word_vec_size inst = word_vec_size args"
proof -
  from assms obtain ws where
    v: "validate_args (feat_merge args) (feat_vocab_sizes args) (feat_vec_exponent args)
          (feat_vec_size args) (feat_padding_idx args) = Inr ws"
    by (auto simp: Embeddings_init_def split: sum.splits)
  from validate_args_Inr_D [OF v] obtain pads where
    pads: "feat_padding_idx args = Some pads" "length pads = length (feat_vocab_sizes args)"
    and ok: "feat_merge args = ''sum'' \<or> 0 < feat_vec_size args \<or> 0 < feat_vec_exponent args"
    by auto
  from assms v obtain fdims where fd: "feat_dims float_pow args = Inr fdims"
    by (auto simp: Embeddings_init_def split: sum.splits)
  from assms v fd pads obtain embeddings where
    c: "collect (map (make_table (enable_embeddingless args) rand)
          (enumerate 0 (emb_params args fdims pads))) = Inr embeddings"
    by (auto simp: Embeddings_init_def Let_def split: sum.splits)
  from assms v fd pads c obtain luts where el: "Elementwise_init (feat_merge args) embeddings = Inr luts"
    by (auto simp: Embeddings_init_def Let_def split: sum.splits)
  then have luts: "luts = embeddings"
    by (auto simp: Elementwise_init_def split: if_splits)
  from assms v fd pads c el luts
  have "self_emb_luts inst =
       (if freeze_word_vecs args
        then (case embeddings of [] \<Rightarrow> [] | w # fs \<Rightarrow> w\<lparr>requires_grad := False\<rparr> # fs)
        else embeddings)"
    and "self_embedding_size inst =
       (if feat_merge args = ''concat'' then sum_list (word_vec_size args # fdims) else word_vec_size args)"
    and "self_mlp inst =
       (if feat_merge args = ''mlp'' \<and> 0 < length (feat_vocab_sizes args)
        then Some (sum_list (word_vec_size args # fdims), word_vec_size args) else None)"
    and "self_word_vec_size inst = word_vec_size args"
    by (auto simp: Embeddings_init_def Let_def split: sum.splits if_splits)
  with fd pads ok c feat_dims_length [OF fd] that show thesis by blast
qed

lemma tables_of_params:
  assumes "collect (map (make_table b rand) (enumerate 0 ps)) = Inr es"
  shows "length es = length ps"
    and "i < length ps \<Longrightarrow> make_table b rand (i, ps ! i) = Inr (es ! i)"
proof -
  from collect_Inr_length [OF assms] show "length es = length ps" by simp
  assume i: "i < length ps"
  then have "enumerate 0 ps ! i = (i, ps ! i)" by (simp add: nth_enumerate_eq)
  with collect_map_Inr_nth [OF assms, of i] i show "make_table b rand (i, ps ! i) = Inr (es ! i)"
    by simp
qed

lemma table_dims_of_params:
  assumes "collect (map (make_table b rand) (enumerate 0 ps)) = Inr es"
  shows "map embedding_dim es = map (\<lambda>(vocab, dim', pad). dim') ps"
proof (rule nth_equalityI)
  show "length (map embedding_dim es) = length (map (\<lambda>(vocab, dim', pad). dim') ps)"
    using tables_of_params(1) [OF assms] by simp
next
  fix i assume "i < length (map embedding_dim es)"
  then have i: "i < length ps" using tables_of_params(1) [OF assms] by simp
  obtain vocab dim' pad where p: "ps ! i = (vocab, dim', pad)" by (cases "ps ! i")
  from tables_of_params(2) [OF assms i] p
  have "make_table b rand (i, vocab, dim', pad) = Inr (es ! i)" by simp
  from make_table_Inr_D [OF this] have "embedding_dim (es ! i) = dim'" by simp
  with i p tables_of_params(1) [OF assms]
  show "map embedding_dim es ! i = map (\<lambda>(vocab, dim', pad). dim') ps ! i" by simp
qed

lemma emb_params_dims:
  assumes "length fdims = length (feat_vocab_sizes args)" and "length pads = length (feat_vocab_sizes args)"
  shows "map (\<lambda>(vocab, dim', pad). dim') (emb_params args fdims pads) = word_vec_size args # fdims"
    and "map (\<lambda>(vocab, dim', pad). vocab) (emb_params args fdims pads) =
           word_vocab_size args # feat_vocab_sizes args"
    and "length (emb_params args fdims pads) = Suc (length (feat_vocab_sizes args))"
  using assms by (auto simp: emb_params_def intro!: nth_equalityI)

lemma freeze_keeps_dims:
  "map embedding_dim (case es of [] \<Rightarrow> [] | w # fs \<Rightarrow> w\<lparr>requires_grad := False\<rparr> # fs) =
   map embedding_dim es"
  by (cases es) auto

lemma init_table_dims:
  assumes "Embeddings_init float_pow rand args = Inr inst"
  obtains fdims where "feat_dims float_pow args = Inr fdims"
    and "map embedding_dim (self_emb_luts inst) = word_vec_size args # fdims"
    and "self_embedding_size inst =
       (if feat_merge args = ''concat'' then sum_list (word_vec_size args # fdims) else word_vec_size args)"
proof -
  from assms obtain fdims pads embeddings where
    fd: "feat_dims float_pow args = Inr fdims" and "feat_padding_idx args = Some pads"
    and lp: "length pads = length (feat_vocab_sizes args)"
    and lf: "length fdims = length (feat_vocab_sizes args)"
    and c: "collect (map (make_table (enable_embeddingless args) rand)
        (enumerate 0 (emb_params args fdims pads))) = Inr embeddings"
    and luts: "self_emb_luts inst =
       (if freeze_word_vecs args
        then (case embeddings of [] \<Rightarrow> [] | w # fs \<Rightarrow> w\<lparr>requires_grad := False\<rparr> # fs)
        else embeddings)"
    and size: "self_embedding_size inst =
       (if feat_merge args = ''concat'' then sum_list (word_vec_size args # fdims) else word_vec_size args)"
    by (rule Embeddings_init_Inr_D)
  from luts have "map embedding_dim (self_emb_luts inst) = map embedding_dim embeddings"
    by (simp add: freeze_keeps_dims)
  also have "\<dots> = word_vec_size args # fdims"
    using table_dims_of_params [OF c] emb_params_dims(1) [OF lf lp] by simp
  finally have "map embedding_dim (self_emb_luts inst) = word_vec_size args # fdims" .
  with fd show thesis using size by (rule that)
qed

text \<open>
  C5. For every instance the constructor returns: with merge strategy
  \<open>concat\<close> the derived \<open>embedding_size\<close> is the sum of the widths of all
  tables (the word table and the feature tables); with \<open>sum\<close> or \<open>mlp\<close> it is
  the width of the word table, which is \<open>word_vec_size\<close>.
\<close>

theorem embedding_size_by_merge:
  assumes "Embeddings_init float_pow rand args = Inr inst"
  shows "(feat_merge args = ''concat'' \<longrightarrow>
            self_embedding_size inst = sum_list (map embedding_dim (self_emb_luts inst))) \<and>
         (feat_merge args = ''sum'' \<or> feat_merge args = ''mlp'' \<longrightarrow>
            self_embedding_size inst = embedding_dim (hd (self_emb_luts inst))) \<and>
         embedding_dim (hd (self_emb_luts inst)) = word_vec_size args \<and>
         length (self_emb_luts inst) = Suc (length (feat_vocab_sizes args))"
proof -
  from assms obtain fdims where fd: "feat_dims float_pow args = Inr fdims"
    and dims: "map embedding_dim (self_emb_luts inst) = word_vec_size args # fdims"
    and size: "self_embedding_size inst =
       (if feat_merge args = ''concat'' then sum_list (word_vec_size args # fdims) else word_vec_size args)"
    by (rule init_table_dims)
  from dims have hd: "embedding_dim (hd (self_emb_luts inst)) = word_vec_size args"
    by (cases "self_emb_luts inst") auto
  from dims have "length (self_emb_luts inst) = Suc (length fdims)"
    by (metis length_Cons length_map)
  with feat_dims_length [OF fd] have len: "length (self_emb_luts inst) = Suc (length (feat_vocab_sizes args))"
    by simp
  from size dims hd len show ?thesis by auto
qed












lemma feat_dims_concat_example:
  "feat_dims (\<lambda>vocab e. if vocab = 9 then Inr 3 else Inr 2)
     ((default_args 10 2 0)\<lparr>feat_vec_exponent := 1/2, feat_padding_idx := Some [0, 0],
        feat_vocab_sizes := [9, 4]\<rparr>) = Inr [3, 2]"
  by (simp add: feat_dims_def default_args_def int_pow_def trunc_def)

lemma init_concat_example:
  "\<exists>inst. Embeddings_init (\<lambda>vocab e. if vocab = 9 then Inr 3 else Inr 2) (\<lambda>k i j. 0)
      ((default_args 10 2 0)\<lparr>feat_vec_exponent := 1/2, feat_padding_idx := Some [0, 0],
         feat_vocab_sizes := [9, 4]\<rparr>) = Inr inst"
  using feat_dims_concat_example
  by (simp add: Embeddings_init_def validate_args_def default_args_def emb_params_def
      make_table_def nn_Embedding_def Elementwise_init_def Let_def)

lemma init_sum_example:
  "\<exists>inst. Embeddings_init float_pow (\<lambda>k i j. 0)
      ((default_args 10 2 0)\<lparr>feat_merge := ''sum'', feat_padding_idx := Some [0, 0],
         feat_vocab_sizes := [9, 4]\<rparr>) = Inr inst"
  by (simp add: Embeddings_init_def validate_args_def default_args_def emb_params_def
      make_table_def nn_Embedding_def Elementwise_init_def Let_def feat_dims_def)

text \<open>
  Two instances with feature vocabularies of 9 and 4 entries. With \<open>concat\<close>
  and exponent \<open>0.5\<close> (the runtime evaluates \<open>9 ** 0.5\<close> to \<open>3.0\<close> and
  \<open>4 ** 0.5\<close> to \<open>2.0\<close>) the widths are 10, 3 and 2 and \<open>embedding_size\<close> is
  15; with \<open>sum\<close> it is 10.
\<close>

theorem embedding_size_by_merge_witness:
  "(\<exists>inst. Embeddings_init (\<lambda>vocab e. if vocab = 9 then Inr 3 else Inr 2) (\<lambda>k i j. 0)
        ((default_args 10 2 0)\<lparr>feat_vec_exponent := 1/2, feat_padding_idx := Some [0, 0],
           feat_vocab_sizes := [9, 4]\<rparr>) = Inr inst \<and>
      map embedding_dim (self_emb_luts inst) = [10, 3, 2] \<and>
      self_embedding_size inst = 15) \<and>
   (\<exists>inst. Embeddings_init (\<lambda>vocab e. if vocab = 9 then Inr 3 else Inr 2) (\<lambda>k i j. 0)
        ((default_args 10 2 0)\<lparr>feat_merge := ''sum'', feat_padding_idx := Some [0, 0],
           feat_vocab_sizes := [9, 4]\<rparr>) = Inr inst \<and>
      self_embedding_size inst = 10)"
proof -
  let ?pw = "\<lambda>(vocab::int) (e::real). if vocab = 9 then (Inr 3 :: py_error + real) else Inr 2"
  let ?rand = "\<lambda>(k::nat) (i::nat) (j::nat). (0::real)"
  let ?a = "(default_args 10 2 0)\<lparr>feat_vec_exponent := 1/2, feat_padding_idx := Some [0, 0],
           feat_vocab_sizes := [9, 4]\<rparr>"
  let ?b = "(default_args 10 2 0)\<lparr>feat_merge := ''sum'', feat_padding_idx := Some [0, 0],
           feat_vocab_sizes := [9, 4]\<rparr>"
  from init_concat_example obtain inst where inst: "Embeddings_init ?pw ?rand ?a = Inr inst" ..
  then obtain fdims where "feat_dims ?pw ?a = Inr fdims"
    and "map embedding_dim (self_emb_luts inst) = word_vec_size ?a # fdims"
    by (rule init_table_dims)
  with feat_dims_concat_example have dims: "map embedding_dim (self_emb_luts inst) = [10, 3, 2]"
    by (simp add: default_args_def)
  from embedding_size_by_merge [OF inst] dims have "self_embedding_size inst = 15"
    by (simp add: default_args_def)
  with inst dims have "Embeddings_init ?pw ?rand ?a = Inr inst \<and>
      map embedding_dim (self_emb_luts inst) = [10, 3, 2] \<and> self_embedding_size inst = 15"
    by (intro conjI)
  then have a: "\<exists>inst. Embeddings_init ?pw ?rand ?a = Inr inst \<and>
      map embedding_dim (self_emb_luts inst) = [10, 3, 2] \<and> self_embedding_size inst = 15"
    by (rule exI)
  from init_sum_example [of ?pw] obtain inst2 where inst2: "Embeddings_init ?pw ?rand ?b = Inr inst2" ..
  from embedding_size_by_merge [OF inst2] have "self_embedding_size inst2 = 10"
    by (simp add: default_args_def)
  with inst2 have "Embeddings_init ?pw ?rand ?b = Inr inst2 \<and> self_embedding_size inst2 = 10"
    by (rule conjI)
  then have b: "\<exists>inst. Embeddings_init ?pw ?rand ?b = Inr inst \<and> self_embedding_size inst = 10"
    by (rule exI)
  from a b show ?thesis by (rule conjI)
qed

lemma feat_dims_no_features: "feat_vocab_sizes args = [] \<Longrightarrow> feat_dims float_pow args = Inr []"
  by (simp add: feat_dims_def)

text \<open>
  C6. With merge strategy \<open>mlp\<close> and no feature channel the constructor does
  not raise: \<open>_validate_args\<close> has no check for it, and the guard
  \<open>len(feat_vocab_sizes) > 0\<close> only leaves the \<open>mlp\<close> stage out. With an empty
  \<open>feat_padding_idx\<close>, a positive \<open>feat_vec_size\<close> or exponent, trainable
  tables, no positional encoding and a valid word channel, construction
  returns an instance with the word table alone, no \<open>mlp\<close> stage, and
  \<open>embedding_size = word_vec_size\<close>.
\<close>

theorem mlp_without_features_constructs:
  assumes "feat_merge args = ''mlp''" and "feat_vocab_sizes args = []"
    and "feat_padding_idx args = Some []"
    and "0 < feat_vec_size args \<or> 0 < feat_vec_exponent args"
    and "\<not> enable_embeddingless args" and "\<not> position_encoding args"
    and "0 \<le> word_padding_idx args" and "word_padding_idx args < word_vocab_size args"
    and "0 \<le> word_vec_size args"
  shows "\<exists>inst. Embeddings_init float_pow rand args = Inr inst \<and> self_mlp inst = None \<and>
           self_embedding_size inst = word_vec_size args \<and> length (self_emb_luts inst) = 1"
proof -
  have v: "\<exists>ws. validate_args (feat_merge args) (feat_vocab_sizes args) (feat_vec_exponent args)
          (feat_vec_size args) (feat_padding_idx args) = Inr ws"
    using assms(1-4) by (auto simp: validate_args_def)
  have t: "nn_Embedding (rand 0) (word_vocab_size args) (word_vec_size args) (word_padding_idx args) =
      Inr \<lparr>num_embeddings = word_vocab_size args, embedding_dim = word_vec_size args,
           padding_idx = word_padding_idx args,
           weight = map (\<lambda>i. map (\<lambda>j. if i = nat (word_padding_idx args) then 0 else rand 0 i j)
                      [0..<nat (word_vec_size args)]) [0..<nat (word_vocab_size args)],
           requires_grad = True\<rparr>"
    using assms(7-9) by (rule nn_Embedding_ok)
  from v obtain ws where "validate_args (feat_merge args) (feat_vocab_sizes args) (feat_vec_exponent args)
          (feat_vec_size args) (feat_padding_idx args) = Inr ws" ..
  with t show ?thesis
    using assms(1,2,3,5,6)
    by (simp add: Embeddings_init_def feat_dims_no_features emb_params_def make_table_def
        Elementwise_init_def Let_def)
qed

theorem mlp_without_features_constructs_witness:
  "\<forall>float_pow. \<exists>inst.
      Embeddings_init float_pow (\<lambda>k i j. 0) ((default_args 4 5 0)\<lparr>feat_merge := ''mlp''\<rparr>) = Inr inst \<and>
      self_mlp inst = None \<and> self_embedding_size inst = 4 \<and> length (self_emb_luts inst) = 1"
proof
  fix float_pow :: "int \<Rightarrow> real \<Rightarrow> py_error + real"
  from mlp_without_features_constructs
    [of "(default_args 4 5 0)\<lparr>feat_merge := ''mlp''\<rparr>" float_pow "\<lambda>k i j. 0"]
  show "\<exists>inst.
      Embeddings_init float_pow (\<lambda>k i j. 0) ((default_args 4 5 0)\<lparr>feat_merge := ''mlp''\<rparr>) = Inr inst \<and>
      self_mlp inst = None \<and> self_embedding_size inst = 4 \<and> length (self_emb_luts inst) = 1"
    by (simp add: default_args_def float_0_7_def)
qed

text \<open>
  The claim fails on the default arguments with \<open>feat_merge = 'mlp'\<close>, a word
  vocabulary of 5 and width 4: the constructor returns this instance (no
  power is computed, so it is the same for every \<open>float_pow\<close>).
\<close>

theorem mlp_without_features_counterexample:
  "\<forall>float_pow.
   Embeddings_init float_pow (\<lambda>k i j. 1) ((default_args 4 5 0)\<lparr>feat_merge := ''mlp''\<rparr>) =
     Inr \<lparr>self_word_padding_idx = 0, self_word_vec_size = 4, self_embedding_size = 4,
          self_emb_luts =
            [\<lparr>num_embeddings = 5, embedding_dim = 4, padding_idx = 0,
              weight = [[0, 0, 0, 0], [1, 1, 1, 1], [1, 1, 1, 1], [1, 1, 1, 1], [1, 1, 1, 1]],
              requires_grad = True\<rparr>],
          self_merge = ''mlp'', self_mlp = None, self_position_encoding = False, self_pe = None\<rparr>"
  by (simp add: Embeddings_init_def validate_args_def feat_dims_def default_args_def float_0_7_def
      emb_params_def make_table_def nn_Embedding_def Elementwise_init_def Let_def upt_rec
      eval_nat_numeral)

lemma zip3_member:
  assumes "(a, b) \<in> set (zip as bs)" and "length bs = length as" and "length cs = length as"
  shows "\<exists>c. (a, b, c) \<in> set (zip as (zip bs cs))"
proof -
  from assms(1) obtain i where i: "i < length (zip as bs)" and x: "zip as bs ! i = (a, b)"
    by (auto simp only: in_set_conv_nth)
  from i assms(2,3) have i': "i < length (zip as (zip bs cs))" by simp
  from i x assms(2,3) have "zip as (zip bs cs) ! i = (a, b, cs ! i)" by simp
  with i' have "(a, b, cs ! i) \<in> set (zip as (zip bs cs))" by (metis nth_mem)
  then show ?thesis ..
qed

lemma channel_in_emb_params:
  assumes "(vocab, dim') \<in> set (zip (word_vocab_size args # feat_vocab_sizes args) (word_vec_size args # fdims))"
    and "length fdims = length (feat_vocab_sizes args)"
    and "length pads = length (feat_vocab_sizes args)"
  shows "\<exists>pad. (vocab, dim', pad) \<in> set (emb_params args fdims pads)"
  unfolding emb_params_def using assms by (intro zip3_member) simp_all

text \<open>
  C8. With structured tables requested, a channel (the word channel or a
  feature channel, with the width the constructor computes for it) whose
  width is smaller than its vocabulary size: \<open>create_embeddingless\<close> raises
  for such a channel, and the constructor \<open>Embeddings.__init__\<close> raises, so
  no instance exists on which a lookup could fail later.
\<close>

theorem embeddingless_width_below_vocab_fails:
  assumes "enable_embeddingless args"
    and "feat_dims float_pow args = Inr fdims"
    and "(vocab, dim') \<in> set (zip (word_vocab_size args # feat_vocab_sizes args) (word_vec_size args # fdims))"
    and "dim' < vocab"
  shows "create_embeddingless init vocab dim' pad = Inl RuntimeError \<and>
         isl (Embeddings_init float_pow rand args)"
proof -
  have "isl (Embeddings_init float_pow rand args)"
  proof (cases "validate_args (feat_merge args) (feat_vocab_sizes args) (feat_vec_exponent args)
          (feat_vec_size args) (feat_padding_idx args)")
    case (Inl e)
    then show ?thesis by (simp add: Embeddings_init_def)
  next
    case (Inr ws)
    from validate_args_Inr_D(1) [OF Inr] obtain pads where
      pads: "feat_padding_idx args = Some pads" and lp: "length pads = length (feat_vocab_sizes args)"
      by auto
    from channel_in_emb_params [OF assms(3) feat_dims_length [OF assms(2)] lp]
    obtain pad' where "(vocab, dim', pad') \<in> set (emb_params args fdims pads)" ..
    then obtain k where k: "(k, vocab, dim', pad') \<in> set (enumerate 0 (emb_params args fdims pads))"
      using in_set_enumerate_ex by fastforce
    have "isl (make_table (enable_embeddingless args) rand (k, vocab, dim', pad'))"
      using assms(1,4) by (simp add: make_table_def create_embeddingless_narrow)
    with k have "isl (collect (map (make_table (enable_embeddingless args) rand)
                         (enumerate 0 (emb_params args fdims pads))))"
      by (rule collect_Inl)
    then obtain e where "collect (map (make_table (enable_embeddingless args) rand)
                         (enumerate 0 (emb_params args fdims pads))) = Inl e"
      by (auto simp: isl_def)
    then show ?thesis
      using assms(2) pads Inr by (simp add: Embeddings_init_def Let_def)
  qed
  with assms(4) show ?thesis
    by (simp add: create_embeddingless_narrow)
qed

theorem embeddingless_width_below_vocab_fails_witness:
  "\<forall>float_pow.
   enable_embeddingless ((default_args 4 5 0)\<lparr>enable_embeddingless := True\<rparr>) \<and>
   feat_dims float_pow ((default_args 4 5 0)\<lparr>enable_embeddingless := True\<rparr>) = Inr [] \<and>
   (5, 4) \<in> set (zip
      (word_vocab_size ((default_args 4 5 0)\<lparr>enable_embeddingless := True\<rparr>) #
       feat_vocab_sizes ((default_args 4 5 0)\<lparr>enable_embeddingless := True\<rparr>))
      (word_vec_size ((default_args 4 5 0)\<lparr>enable_embeddingless := True\<rparr>) # [])) \<and>
   (4::int) < 5 \<and>
   create_embeddingless (\<lambda>i j. 0) 5 4 0 = Inl RuntimeError \<and>
   isl (Embeddings_init float_pow (\<lambda>k i j. 0) ((default_args 4 5 0)\<lparr>enable_embeddingless := True\<rparr>))"
proof
  fix float_pow :: "int \<Rightarrow> real \<Rightarrow> py_error + real"
  let ?args = "(default_args 4 5 0)\<lparr>enable_embeddingless := True\<rparr>"
  have h1: "enable_embeddingless ?args" by (simp add: default_args_def)
  have h2: "feat_dims float_pow ?args = Inr []" by (simp add: default_args_def feat_dims_def)
  have h3: "(5, 4) \<in> set (zip (word_vocab_size ?args # feat_vocab_sizes ?args) (word_vec_size ?args # []))"
    by (simp add: default_args_def)
  have h4: "(4::int) < 5" by simp
  from embeddingless_width_below_vocab_fails [OF h1 h2 h3 h4, of "\<lambda>i j. 0" 0 "\<lambda>k i j. 0"] h1 h2 h3 h4
  show "enable_embeddingless ?args \<and>
   feat_dims float_pow ?args = Inr [] \<and>
   (5, 4) \<in> set (zip (word_vocab_size ?args # feat_vocab_sizes ?args) (word_vec_size ?args # [])) \<and>
   (4::int) < 5 \<and>
   create_embeddingless (\<lambda>i j. 0) 5 4 0 = Inl RuntimeError \<and>
   isl (Embeddings_init float_pow (\<lambda>k i j. 0) ?args)"
    by (intro conjI) simp_all
qed
section \<open>Properties of loading pretrained vectors\<close>

lemma init_word_lut:
  assumes "Embeddings_init float_pow rand args = Inr inst"
  obtains word_lut feats where "self_emb_luts inst = word_lut # feats"
    and "length (weight word_lut) = nat (word_vocab_size args)"
    and "embedding_dim word_lut = word_vec_size args"
    and "0 \<le> word_vec_size args" and "0 \<le> word_vocab_size args"
    and "self_word_vec_size inst = word_vec_size args"
proof -
  from assms obtain fdims pads embeddings where
    c: "collect (map (make_table (enable_embeddingless args) rand)
        (enumerate 0 (emb_params args fdims pads))) = Inr embeddings"
    and luts: "self_emb_luts inst =
       (if freeze_word_vecs args
        then (case embeddings of [] \<Rightarrow> [] | w # fs \<Rightarrow> w\<lparr>requires_grad := False\<rparr> # fs)
        else embeddings)"
    and wv: "self_word_vec_size inst = word_vec_size args"
    by (rule Embeddings_init_Inr_D)
  obtain rest where ps: "emb_params args fdims pads =
      (word_vocab_size args, word_vec_size args, word_padding_idx args) # rest"
    by (simp add: emb_params_def)
  from tables_of_params [OF c] ps obtain w fs where es: "embeddings = w # fs"
    and w: "make_table (enable_embeddingless args) rand
              (0, word_vocab_size args, word_vec_size args, word_padding_idx args) = Inr w"
    by (cases embeddings) force+
  note d = make_table_Inr_D [OF w]
  show thesis
  proof (cases "freeze_word_vecs args")
    case True
    with luts es have "self_emb_luts inst = w\<lparr>requires_grad := False\<rparr> # fs" by simp
    then show thesis using d wv by (intro that) auto
  next
    case False
    with luts es have "self_emb_luts inst = w # fs" by simp
    then show thesis using d wv by (intro that) auto
  qed
qed

lemma broadcast_to_same:
  "length (vectors src) = r \<Longrightarrow> size1 src = c \<Longrightarrow> broadcast_to r c src = Inr (vectors src)"
  by (simp add: broadcast_to_def)

lemma py_slice_prefix: "0 \<le> w \<Longrightarrow> py_slice xs 0 w = take (nat w) xs"
  using py_slice_nonneg [of 0 w xs] by simp

lemma slice_cols_prefix:
  assumes "0 \<le> w" and "w \<le> int (size1 src)"
  shows "slice_cols src w = \<lparr>vectors = map (take (nat w)) (vectors src), size1 = nat w\<rparr>"
proof -
  from assms have "nat w \<le> size1 src" by linarith
  with assms(1) show ?thesis
    by (simp add: slice_cols_def py_slice_prefix min_def)
qed

text \<open>
  C7. For an instance the constructor returned, with word width
  \<open>W = word_vec_size\<close>, and a loaded tensor over the same vocabulary (as many
  rows as the word table) of width \<open>P = size1 loaded\<close>, whose rows all have
  \<open>P\<close> entries: \<open>load_pretrained_vectors\<close> returns, and only the weight of
  the word table changes. If \<open>W > P\<close> every row becomes the pretrained row
  followed by the old row from column \<open>P\<close> on; if \<open>W < P\<close> it becomes the
  first \<open>W\<close> entries of the pretrained row; if \<open>W = P\<close> it becomes the
  pretrained row. The feature tables and every other attribute are as before.
\<close>

theorem load_pretrained_aligns_by_width:
  assumes init: "Embeddings_init float_pow rand args = Inr self"
    and load: "torch_load path = Inr loaded" and path: "path \<noteq> []"
    and rows: "int (length (vectors loaded)) = word_vocab_size args"
  shows "load_pretrained_vectors torch_load self (Some path) =
           Inr (self\<lparr>self_emb_luts :=
                  (hd (self_emb_luts self))
                    \<lparr>weight :=
                       (if int (size1 loaded) < word_vec_size args
                        then map2 (\<lambda>s old. s @ drop (size1 loaded) old)
                               (vectors loaded) (weight (hd (self_emb_luts self)))
                        else if word_vec_size args < int (size1 loaded)
                        then map (take (nat (word_vec_size args))) (vectors loaded)
                        else vectors loaded)\<rparr>
                  # tl (self_emb_luts self)\<rparr>)"
proof -
  from init obtain word_lut feats where luts: "self_emb_luts self = word_lut # feats"
    and len: "length (weight word_lut) = nat (word_vocab_size args)"
    and dim: "embedding_dim word_lut = word_vec_size args"
    and nonneg: "0 \<le> word_vec_size args"
    and wv: "self_word_vec_size self = word_vec_size args"
    by (rule init_word_lut)
  from rows len have r: "length (vectors loaded) = length (weight word_lut)" by simp
  show ?thesis
  proof (cases "int (size1 loaded) < word_vec_size args")
    case True
    then have m: "min (size1 loaded) (nat (word_vec_size args)) = size1 loaded" by simp
    from r m have "broadcast_to (length (weight word_lut)) (min (size1 loaded) (nat (word_vec_size args))) loaded =
        Inr (vectors loaded)"
      by (intro broadcast_to_same) simp_all
    with True m show ?thesis
      by (simp add: load_pretrained_vectors_def load path luts dim wv Let_def)
  next
    case False
    show ?thesis
    proof (cases "word_vec_size args < int (size1 loaded)")
      case True
      from nonneg True have sl: "slice_cols loaded (word_vec_size args) =
          \<lparr>vectors = map (take (nat (word_vec_size args))) (vectors loaded),
           size1 = nat (word_vec_size args)\<rparr>"
        by (intro slice_cols_prefix) simp_all
      from r have "broadcast_to (length (weight word_lut)) (nat (word_vec_size args))
          (slice_cols loaded (word_vec_size args)) =
          Inr (map (take (nat (word_vec_size args))) (vectors loaded))"
        unfolding sl by (subst broadcast_to_same) simp_all
      with True False show ?thesis
        by (simp add: load_pretrained_vectors_def load path luts dim wv Let_def)
    next
      case False
      with \<open>\<not> int (size1 loaded) < word_vec_size args\<close>
      have eq: "size1 loaded = nat (word_vec_size args)" by simp
      with r have "broadcast_to (length (weight word_lut)) (nat (word_vec_size args)) loaded =
          Inr (vectors loaded)"
        by (intro broadcast_to_same) simp_all
      with False \<open>\<not> int (size1 loaded) < word_vec_size args\<close> show ?thesis
        by (simp add: load_pretrained_vectors_def load path luts dim wv Let_def)
    qed
  qed
qed


lemma init_load_example:
  "Embeddings_init float_pow (\<lambda>k i j. 1) (default_args 3 2 0) =
     Inr \<lparr>self_word_padding_idx = 0, self_word_vec_size = 3, self_embedding_size = 3,
          self_emb_luts =
            [\<lparr>num_embeddings = 2, embedding_dim = 3, padding_idx = 0,
              weight = [[0, 0, 0], [1, 1, 1]], requires_grad = True\<rparr>],
          self_merge = ''concat'', self_mlp = None, self_position_encoding = False, self_pe = None\<rparr>"
  by (simp add: Embeddings_init_def validate_args_def feat_dims_def default_args_def float_0_7_def
      emb_params_def make_table_def nn_Embedding_def Elementwise_init_def Let_def upt_rec
      eval_nat_numeral)

theorem load_pretrained_aligns_by_width_witness:
  "\<forall>float_pow.
   Embeddings_init float_pow (\<lambda>k i j. 1) (default_args 3 2 0) =
     Inr \<lparr>self_word_padding_idx = 0, self_word_vec_size = 3, self_embedding_size = 3,
          self_emb_luts =
            [\<lparr>num_embeddings = 2, embedding_dim = 3, padding_idx = 0,
              weight = [[0, 0, 0], [1, 1, 1]], requires_grad = True\<rparr>],
          self_merge = ''concat'', self_mlp = None, self_position_encoding = False, self_pe = None\<rparr> \<and>
   load_pretrained_vectors (\<lambda>p. Inr \<lparr>vectors = [[5, 6], [7, 8]], size1 = 2\<rparr>)
     \<lparr>self_word_padding_idx = 0, self_word_vec_size = 3, self_embedding_size = 3,
      self_emb_luts =
        [\<lparr>num_embeddings = 2, embedding_dim = 3, padding_idx = 0,
          weight = [[0, 0, 0], [1, 1, 1]], requires_grad = True\<rparr>],
      self_merge = ''concat'', self_mlp = None, self_position_encoding = False, self_pe = None\<rparr>
     (Some ''emb.pt'') =
     Inr \<lparr>self_word_padding_idx = 0, self_word_vec_size = 3, self_embedding_size = 3,
          self_emb_luts =
            [\<lparr>num_embeddings = 2, embedding_dim = 3, padding_idx = 0,
              weight = [[5, 6, 0], [7, 8, 1]], requires_grad = True\<rparr>],
          self_merge = ''concat'', self_mlp = None, self_position_encoding = False, self_pe = None\<rparr>"
proof
  fix float_pow :: "int \<Rightarrow> real \<Rightarrow> py_error + real"
  let ?loaded = "\<lparr>vectors = [[5, 6], [7, 8]], size1 = 2\<rparr>"
  let ?self = "\<lparr>self_word_padding_idx = 0, self_word_vec_size = 3, self_embedding_size = 3,
      self_emb_luts =
        [\<lparr>num_embeddings = 2, embedding_dim = 3, padding_idx = 0,
          weight = [[0, 0, 0], [1, 1, 1]], requires_grad = True\<rparr>],
      self_merge = ''concat'', self_mlp = None, self_position_encoding = False, self_pe = None\<rparr>"
  have l: "(\<lambda>p::string. (Inr ?loaded :: py_error + pretrained)) ''emb.pt'' = Inr ?loaded" by simp
  have p: "''emb.pt'' \<noteq> []" by simp
  have r: "int (length (vectors ?loaded)) = word_vocab_size (default_args 3 2 0)"
    by (simp add: default_args_def)
  from load_pretrained_aligns_by_width [OF init_load_example [of float_pow] l p r]
    init_load_example [of float_pow]
  show "Embeddings_init float_pow (\<lambda>k i j. 1) (default_args 3 2 0) = Inr ?self \<and>
    load_pretrained_vectors (\<lambda>p. Inr ?loaded) ?self (Some ''emb.pt'') =
     Inr \<lparr>self_word_padding_idx = 0, self_word_vec_size = 3, self_embedding_size = 3,
          self_emb_luts =
            [\<lparr>num_embeddings = 2, embedding_dim = 3, padding_idx = 0,
              weight = [[5, 6, 0], [7, 8, 1]], requires_grad = True\<rparr>],
          self_merge = ''concat'', self_mlp = None, self_position_encoding = False, self_pe = None\<rparr>"
    by (simp add: default_args_def)
qed
section \<open>Properties of reading an embeddings file\<close>

lemma read_loop_skip:
  "read_loop decode float_of skip_lines filter_set embs n i file =
   read_loop decode float_of skip_lines filter_set embs n (i + nat (skip_lines - int i))
     (drop (nat (skip_lines - int i)) file)"
proof (induction "file" arbitrary: i)
  case Nil
  then show ?case by simp
next
  case (Cons line rest)
  show ?case
  proof (cases "int i < skip_lines")
    case True
    then have k: "nat (skip_lines - int i) = Suc (nat (skip_lines - int (Suc i)))"
      by simp
    from True have "read_loop decode float_of skip_lines filter_set embs n i (line # rest) =
        read_loop decode float_of skip_lines filter_set embs n (Suc i) rest"
      by simp
    also have "\<dots> = read_loop decode float_of skip_lines filter_set embs n
        (Suc i + nat (skip_lines - int (Suc i))) (drop (nat (skip_lines - int (Suc i))) rest)"
      by (rule Cons.IH)
    finally show ?thesis
      unfolding k by simp
  next
    case False
    then have "nat (skip_lines - int i) = 0" by simp
    then show ?thesis by simp
  qed
qed

lemma read_loop_body:
  assumes "skip_lines \<le> int i"
    and "\<forall>line\<in>set (takeWhile (\<lambda>line. line \<noteq> []) ls). decode line = Inr (text line)"
    and "\<forall>fs\<in>set (selected_fields filter_set (vector_fields text (takeWhile (\<lambda>line. line \<noteq> []) ls))).
           \<forall>x\<in>set (tl fs). float_of x = Inr (val x)"
  shows "read_loop decode float_of skip_lines filter_set embs n i ls =
     Inr (embeddings_of val
            (selected_fields filter_set (vector_fields text (takeWhile (\<lambda>line. line \<noteq> []) ls))) embs,
          n + length (vector_fields text (takeWhile (\<lambda>line. line \<noteq> []) ls)))"
  using assms
proof (induction ls arbitrary: embs n i)
  case Nil
  then show ?case
    by (simp add: embeddings_of_def selected_fields_def vector_fields_def)
next
  case (Cons line rest)
  show ?case
  proof (cases "line = []")
    case True
    with Cons.prems(1) show ?thesis
      by (simp add: embeddings_of_def selected_fields_def vector_fields_def)
  next
    case False
    let ?body = "takeWhile (\<lambda>line. line \<noteq> []) rest"
    from False have tw: "takeWhile (\<lambda>line. line \<noteq> []) (line # rest) = line # ?body"
      by simp
    from Cons.prems(2) have "\<forall>l\<in>set (line # ?body). decode l = Inr (text l)"
      unfolding tw .
    then have dec: "decode line = Inr (text line)"
      and dec': "\<forall>line\<in>set ?body. decode line = Inr (text line)"
      by simp_all
    from Cons.prems(1) have i: "\<not> int i < skip_lines" and i': "skip_lines \<le> int (Suc i)"
      by simp_all
    show ?thesis
    proof (cases "length (l_split (text line)) = 2")
      case True
      then have vf: "vector_fields text (line # ?body) = vector_fields text ?body"
        by (simp add: vector_fields_def)
      from Cons.prems(3) have par': "\<forall>fs\<in>set (selected_fields filter_set (vector_fields text ?body)).
           \<forall>x\<in>set (tl fs). float_of x = Inr (val x)"
        unfolding tw vf .
      from True False i dec
      have "read_loop decode float_of skip_lines filter_set embs n i (line # rest) =
          read_loop decode float_of skip_lines filter_set embs n (Suc i) rest"
        by simp
      also note Cons.IH [OF i' dec' par']
      finally have R: "read_loop decode float_of skip_lines filter_set embs n i (line # rest) =
          Inr (embeddings_of val (selected_fields filter_set (vector_fields text ?body)) embs,
               n + length (vector_fields text ?body))" .
      show ?thesis unfolding tw vf R ..
    next
      case two: False
      then have vf: "vector_fields text (line # ?body) = l_split (text line) # vector_fields text ?body"
        by (simp add: vector_fields_def)
      show ?thesis
      proof (cases "filtered_out filter_set (l_split (text line))")
        case True
        then have sf: "selected_fields filter_set (l_split (text line) # vector_fields text ?body) =
            selected_fields filter_set (vector_fields text ?body)"
          by (simp add: selected_fields_def)
        from Cons.prems(3) have par': "\<forall>fs\<in>set (selected_fields filter_set (vector_fields text ?body)).
           \<forall>x\<in>set (tl fs). float_of x = Inr (val x)"
          unfolding tw vf sf .
        from True two False i dec
        have "read_loop decode float_of skip_lines filter_set embs n i (line # rest) =
            read_loop decode float_of skip_lines filter_set embs (Suc n) (Suc i) rest"
          by simp
        also note Cons.IH [OF i' dec' par']
        finally have R: "read_loop decode float_of skip_lines filter_set embs n i (line # rest) =
            Inr (embeddings_of val (selected_fields filter_set (vector_fields text ?body)) embs,
                 Suc n + length (vector_fields text ?body))" .
        show ?thesis unfolding tw vf sf R by simp
      next
        case sel: False
        then have sf: "selected_fields filter_set (l_split (text line) # vector_fields text ?body) =
            l_split (text line) # selected_fields filter_set (vector_fields text ?body)"
          by (simp add: selected_fields_def)
        from Cons.prems(3) have here: "\<forall>x\<in>set (tl (l_split (text line))). float_of x = Inr (val x)"
          and par': "\<forall>fs\<in>set (selected_fields filter_set (vector_fields text ?body)).
           \<forall>x\<in>set (tl fs). float_of x = Inr (val x)"
          unfolding tw vf sf by simp_all
        from here have vec: "collect (map float_of (tl (l_split (text line)))) =
            Inr (map val (tl (l_split (text line))))"
          by (intro collect_map_Inr) simp
        from sel two False i dec vec
        have "read_loop decode float_of skip_lines filter_set embs n i (line # rest) =
            read_loop decode float_of skip_lines filter_set
              (embs(hd (l_split (text line)) \<mapsto> map val (tl (l_split (text line))))) (Suc n) (Suc i) rest"
          by simp
        also note Cons.IH [OF i' dec' par']
        finally have R: "read_loop decode float_of skip_lines filter_set embs n i (line # rest) =
            Inr (embeddings_of val (selected_fields filter_set (vector_fields text ?body))
                   (embs(hd (l_split (text line)) \<mapsto> map val (tl (l_split (text line))))),
                 Suc n + length (vector_fields text ?body))" .
        show ?thesis unfolding tw vf sf R by (simp add: embeddings_of_def)
      qed
    qed
  qed
qed


text \<open>
  C9. When every line that is read decodes and every field that is parsed is
  a number: \<open>read_embeddings\<close> leaves out the first \<open>skip_lines\<close> lines,
  strips each further line and cuts it at every single space, leaves out the
  lines of exactly two fields, counts the others, and for those whose first
  field passes the filter maps the first field to the values of the other
  fields. The fields are cut at spaces only: a tab or another whitespace
  character inside the line does not separate fields.
\<close>

theorem read_embeddings_fields:
  assumes "\<forall>line\<in>set (body_lines skip_lines file). decode line = Inr (text line)"
    and "\<forall>fs\<in>set (selected_fields filter_set (vector_fields text (body_lines skip_lines file))).
           \<forall>x\<in>set (tl fs). float_of x = Inr (val x)"
  shows "read_embeddings decode float_of file skip_lines filter_set =
     Inr (embeddings_of val
            (selected_fields filter_set (vector_fields text (body_lines skip_lines file))) Map.empty,
          length (vector_fields text (body_lines skip_lines file)))"
proof -
  have "read_embeddings decode float_of file skip_lines filter_set =
      read_loop decode float_of skip_lines filter_set Map.empty 0 (nat skip_lines)
        (drop (nat skip_lines) file)"
    unfolding read_embeddings_def
    using read_loop_skip [of decode float_of skip_lines filter_set Map.empty 0 0 "file"]
    by simp
  also have "\<dots> = Inr (embeddings_of val
            (selected_fields filter_set
               (vector_fields text (takeWhile (\<lambda>line. line \<noteq> []) (drop (nat skip_lines) file)))) Map.empty,
          0 + length (vector_fields text (takeWhile (\<lambda>line. line \<noteq> []) (drop (nat skip_lines) file))))"
    using assms by (intro read_loop_body) (simp_all add: body_lines_def)
  finally show ?thesis by (simp add: body_lines_def)
qed

lemma l_split_examples:
  "l_split (''1 2\<newline>'') = [''1'', ''2'']"
  "l_split (''the 0.5 2\<newline>'') = [''the'', ''0.5'', ''2'']"
  "l_split [CHR ''a'', CHR 0x09, CHR ''1'', CHR 0x09, CHR ''2'', CHR 0x0A] =
     [[CHR ''a'', CHR 0x09, CHR ''1'', CHR 0x09, CHR ''2'']]"
  by (simp_all add: l_split_def py_split_space_def py_strip_def py_isspace_def)

theorem read_embeddings_fields_witness:
  "read_embeddings Inr
     (\<lambda>s. case map_of [(''0.5'', 1/2), (''2'', 2::real)] s of None \<Rightarrow> Inl ValueError | Some v \<Rightarrow> Inr v)
     [''1 2\<newline>'', ''the 0.5 2\<newline>''] 0 None =
   Inr ([''the'' \<mapsto> [1/2, 2]], 1)"
proof -
  let ?file = "[''1 2\<newline>'', ''the 0.5 2\<newline>'']"
  let ?float = "\<lambda>s. case map_of [(''0.5'', 1/2), (''2'', 2::real)] s of
      None \<Rightarrow> (Inl ValueError :: py_error + real) | Some v \<Rightarrow> Inr v"
  let ?val = "\<lambda>s. if s = ''0.5'' then 1/2 else (2::real)"
  have vf: "vector_fields (\<lambda>l. l) (body_lines 0 ?file) = [[''the'', ''0.5'', ''2'']]"
    by (simp add: vector_fields_def body_lines_def l_split_examples)
  have h1: "\<forall>line\<in>set (body_lines 0 ?file). Inr line = (Inr ((\<lambda>l. l) line) :: py_error + string)"
    by simp
  have h2: "\<forall>fs\<in>set (selected_fields None (vector_fields (\<lambda>l. l) (body_lines 0 ?file))).
      \<forall>x\<in>set (tl fs). ?float x = Inr (?val x)"
    unfolding vf by (simp add: selected_fields_def filtered_out_def)
  from read_embeddings_fields [of 0 ?file Inr "\<lambda>l. l" None ?float ?val, OF h1 h2]
  show ?thesis
    unfolding vf by (simp add: selected_fields_def filtered_out_def embeddings_of_def)
qed

text \<open>
  The claim with fields split on whitespace fails on a tab-separated line:
  the line \<open>a<TAB>1<TAB>2\<close> has the three whitespace-separated fields \<open>a\<close>,
  \<open>1\<close>, \<open>2\<close>, but \<open>read_embeddings\<close> sees one field and maps the whole line
  to the empty vector, whatever \<open>float\<close> does.
\<close>

theorem read_embeddings_whitespace_counterexample:
  "(\<forall>float_of :: string \<Rightarrow> py_error + real.
      read_embeddings Inr float_of
        [[CHR ''a'', CHR 0x09, CHR ''1'', CHR 0x09, CHR ''2'', CHR 0x0A]] 0 None =
      Inr ([[CHR ''a'', CHR 0x09, CHR ''1'', CHR 0x09, CHR ''2''] \<mapsto> []], 1)) \<and>
   split_whitespace [CHR ''a'', CHR 0x09, CHR ''1'', CHR 0x09, CHR ''2'', CHR 0x0A] =
     [''a'', ''1'', ''2'']"
  by (simp add: read_embeddings_def l_split_examples filtered_out_def split_whitespace_def
      py_isspace_def)


end
